theory Spec2Isabelle
  imports Complex_Main "HOL-Library.Multiset"
begin

section \<open>The corp tax summary of the MiningTaxes Discord integration\<close>

text \<open>
  This theory embeds \<^verbatim>\<open>send_corp_tax_summary\<close> of
  \<^verbatim>\<open>miningtaxes-discord/discord_integration.py\<close>: the filter of the records with an
  outstanding balance, the stable descending sort, the fixed-width table, the two embed
  fields, and the dispatch through the bot or the webhook.

  What the model fixes:
  \<^item> A Python value is \<open>None\<close>, an \<open>int\<close> of any size, a \<open>float\<close> or a \<open>str\<close>.
    \<open>PyFloat r\<close> is the finite double whose exact value is the rational \<open>r\<close>. The
    infinities and \<open>nan\<close> are not values of a record in the model; a sum of floats may
    be one of them (\<open>pysum\<close>). The negative zero is not told apart from zero: it is not
    above zero, so no row and no total shows it.
  \<^item> A \<open>str\<close> is a list of characters, one \<open>char\<close> for one character of the Python
    string. The four pictographs of the source's constants are spelled by their UTF-8
    bytes; no length is ever taken of them.
  \<^item> A record of \<open>tax_data\<close> is a \<open>dict\<close> with \<open>str\<close> keys.
  \<^item> The exceptions are those derived from \<open>Exception\<close>, which the function's
    handler catches; \<open>ImportError\<close> is told apart because the source does.
\<close>

subsection \<open>Python values\<close>

datatype pyval = PyNone | PyInt int | PyFloat rat | PyStr string

type_synonym pydict = "string \<rightharpoonup> pyval"

datatype pyexn = ImportError | TypeError | ValueError | OverflowError | OtherException

text \<open>Truthiness, as \<^verbatim>\<open>not x\<close> and \<^verbatim>\<open>if x:\<close> test it.\<close>

fun truthy :: "pyval \<Rightarrow> bool" where
  "truthy PyNone = False"
| "truthy (PyInt i) = (i \<noteq> 0)"
| "truthy (PyFloat r) = (r \<noteq> 0)"
| "truthy (PyStr s) = (s \<noteq> [])"

text \<open>\<^verbatim>\<open>d.get(key, default)\<close>\<close>

definition dict_get :: "pydict \<Rightarrow> string \<Rightarrow> pyval \<Rightarrow> pyval" where
  "dict_get d k dflt = (case d k of None \<Rightarrow> dflt | Some v \<Rightarrow> v)"

text \<open>
  A value compared with a number (with \<open>0\<close> by the filter, with the other keys by the
  sort): \<open>None\<close> and a \<open>str\<close> raise \<open>TypeError\<close>. Python compares an \<open>int\<close> and a
  \<open>float\<close> by their exact values, so the value is all that a comparison needs.
\<close>

fun num_of :: "pyval \<Rightarrow> pyexn + rat" where
  "num_of (PyInt i) = Inr (of_int i)"
| "num_of (PyFloat r) = Inr r"
| "num_of PyNone = Inl TypeError"
| "num_of (PyStr s) = Inl TypeError"

text \<open>\<^verbatim>\<open>v[:n]\<close>: only a \<open>str\<close> can be sliced.\<close>

fun slice_to :: "nat \<Rightarrow> pyval \<Rightarrow> pyexn + string" where
  "slice_to n (PyStr s) = Inr (take n s)"
| "slice_to n PyNone = Inl TypeError"
| "slice_to n (PyInt i) = Inl TypeError"
| "slice_to n (PyFloat r) = Inl TypeError"

text \<open>The list comprehension pattern: the first element that raises ends the run.\<close>

fun map_exn :: "('a \<Rightarrow> pyexn + 'b) \<Rightarrow> 'a list \<Rightarrow> pyexn + 'b list" where
  "map_exn f [] = Inr []"
| "map_exn f (x # xs) =
     (case f x of
        Inl e \<Rightarrow> Inl e
      | Inr y \<Rightarrow> (case map_exn f xs of Inl e \<Rightarrow> Inl e | Inr ys \<Rightarrow> Inr (y # ys)))"

subsection \<open>String formatting\<close>

text \<open>\<^verbatim>\<open>{s:<n}\<close> and \<^verbatim>\<open>{s:>n}\<close>: padding with spaces, never truncation.\<close>

definition ljust :: "nat \<Rightarrow> string \<Rightarrow> string" where
  "ljust n s = s @ replicate (n - length s) CHR '' ''"

definition rjust :: "nat \<Rightarrow> string \<Rightarrow> string" where
  "rjust n s = replicate (n - length s) CHR '' '' @ s"

text \<open>The decimal digit of a number from \<open>0\<close> to \<open>9\<close>.\<close>

definition digit :: "int \<Rightarrow> char" where
  "digit d = ''0123456789'' ! nat d"

text \<open>The decimal digits of a number that is not negative.\<close>

function digits_int :: "int \<Rightarrow> string" where
  "digits_int i = (if i < 10 then [digit i] else digits_int (i div 10) @ [digit (i mod 10)])"
  by pat_completeness auto
termination
  by (relation "measure nat") auto

text \<open>\<^verbatim>\<open>str(i)\<close> of an integer, and of a length.\<close>

definition str_int :: "int \<Rightarrow> string" where
  "str_int i = (if i < 0 then ''-'' @ digits_int (- i) else digits_int i)"

definition str_nat :: "nat \<Rightarrow> string" where
  "str_nat n = digits_int (int n)"

text \<open>
  A value interpolated into an f-string with no format specification. The text of a
  \<open>float\<close> is the shortest decimal that reads back as the same double, which is not
  modelled, so the model stops there with an error; \<open>build_report\<close> never reaches the
  branches of the numbers (lemma \<open>top_lines_of_rendered\<close>).
\<close>

fun str_of :: "pyval \<Rightarrow> pyexn + string" where
  "str_of (PyStr s) = Inr s"
| "str_of PyNone = Inr ''None''"
| "str_of (PyInt i) = Inr (str_int i)"
| "str_of (PyFloat r) = Inl OtherException"

text \<open>Digits grouped in threes by commas, as the \<^verbatim>\<open>,\<close> of a format specification does.\<close>

function group3 :: "int \<Rightarrow> string" where
  "group3 i =
     (if i < 1000 then digits_int i
      else group3 (i div 1000) @ '','' @
           [digit (i mod 1000 div 100), digit (i mod 100 div 10), digit (i mod 10)])"
  by pat_completeness auto
termination
  by (relation "measure nat") auto

text \<open>Rounding to the nearest integer, a tie to the even one.\<close>

definition round_half_even :: "rat \<Rightarrow> int" where
  "round_half_even x =
     (let f = \<lfloor>x\<rfloor>; d = x - of_int f
      in if d < 1 / 2 then f
         else if 1 / 2 < d then f + 1
         else if even f then f else f + 1)"

text \<open>
  \<^verbatim>\<open>format(x, ',.2f')\<close> of a finite \<open>float\<close> with the exact value \<open>x\<close>: the decimal
  with two places that is nearest to \<open>x\<close> (a tie to the even one), the integer part
  grouped, a minus sign for a negative value.
\<close>

definition fmt_2f :: "rat \<Rightarrow> string" where
  "fmt_2f x =
     (let c = round_half_even (\<bar>x\<bar> * 100)
      in (if x < 0 then ''-'' else '''') @ group3 (c div 100) @ ''.'' @
         [digit (c mod 100 div 10), digit (c mod 10)])"

text \<open>
  The format code \<open>f\<close> turns an \<open>int\<close> into a \<open>float\<close> first. Below \<open>2 ^ 53\<close> the
  value is kept. From there on it is rounded to 53 significant bits, a tie to the even
  neighbour; \<open>float_ulp a\<close> is the power of two that the rounded value is a multiple
  of. A result of \<open>2 ^ 1024\<close> or more is no double: \<open>OverflowError\<close>, here \<open>None\<close>.
\<close>

function float_ulp :: "int \<Rightarrow> int" where
  "float_ulp a = (if a < 9007199254740992 then 1 else 2 * float_ulp (a div 2))"
  by pat_completeness auto
termination
  by (relation "measure nat") auto

definition float_of_int :: "int \<Rightarrow> rat option" where
  "float_of_int i =
     (if \<bar>i\<bar> < 9007199254740992 then Some (of_int i)
      else
        (let a = \<bar>i\<bar>; p = float_ulp a; q = a div p; r = a mod p;
             m = (if p < 2 * r \<or> (p = 2 * r \<and> odd q) then q + 1 else q) * p
         in if 2 ^ 1024 \<le> m then None
            else Some (of_int (if i < 0 then - m else m))))"

text \<open>
  A value under \<^verbatim>\<open>:,.2f\<close>: an \<open>int\<close> beyond the doubles raises \<open>OverflowError\<close>,
  \<open>None\<close> has no such format (\<open>TypeError\<close>) and a \<open>str\<close> does not know the code \<open>f\<close>
  (\<open>ValueError\<close>).
\<close>

fun format_2f :: "pyval \<Rightarrow> pyexn + string" where
  "format_2f (PyInt i) =
     (case float_of_int i of None \<Rightarrow> Inl OverflowError | Some x \<Rightarrow> Inr (fmt_2f x))"
| "format_2f (PyFloat r) = Inr (fmt_2f r)"
| "format_2f PyNone = Inl TypeError"
| "format_2f (PyStr s) = Inl ValueError"

subsection \<open>The interpreter and the collaborators\<close>

text \<open>
  What \<^verbatim>\<open>sum\<close> returns: an \<open>int\<close>, a finite \<open>float\<close>, or one of the floats that no
  record of the model holds.
\<close>

datatype pysum = SumInt int | SumFloat rat | SumInf | SumMinusInf | SumNan

text \<open>
  The collaborators. The function imports the bot once, calls \<open>send_message\<close> at most
  once and \<open>requests.post\<close> at most once, so one outcome for each describes any
  behaviour of theirs during a call: \<open>None\<close> is success and \<open>Some e\<close> the exception
  raised; \<open>requests.post\<close> raises or answers with a status code. \<open>int_of_str\<close> is the
  builtin \<^verbatim>\<open>int\<close> on a \<open>str\<close> (\<open>None\<close> where it raises \<open>ValueError\<close>), and \<open>utcnow\<close> the
  reading of the clock. Building the \<open>Embed\<close> object is taken not to raise.

  \<open>float_sum\<close> is the builtin \<^verbatim>\<open>sum\<close> on a list of numbers that are not all \<open>int\<close>.
  The interpreter adds them as doubles and the digits it ends with depend on its
  version (CPython rounds after every addition up to 3.11 and carries a compensation
  term from 3.12 on), so the model takes the result from the interpreter: a \<open>float\<close>,
  or the \<open>OverflowError\<close> of an \<open>int\<close> beyond the doubles.
\<close>

record env =
  import_bot :: "pyexn option"
  send_message :: "pyexn option"
  requests_post :: "pyexn + int"
  int_of_str :: "string \<Rightarrow> int option"
  utcnow :: string
  float_sum :: "pyval list \<Rightarrow> pyexn + pysum"

subsection \<open>The filter, the sort and the totals\<close>

text \<open>\<^verbatim>\<open>d.get('balance', 0)\<close>\<close>

definition get_balance :: "pydict \<Rightarrow> pyval" where
  "get_balance d = dict_get d ''balance'' (PyInt 0)"

text \<open>\<^verbatim>\<open>[d for d in tax_data if d.get('balance', 0) > 0]\<close>\<close>

fun filter_outstanding :: "pydict list \<Rightarrow> pyexn + pydict list" where
  "filter_outstanding [] = Inr []"
| "filter_outstanding (d # ds) =
     (case num_of (get_balance d) of
        Inl e \<Rightarrow> Inl e
      | Inr b \<Rightarrow>
          (case filter_outstanding ds of
             Inl e \<Rightarrow> Inl e
           | Inr r \<Rightarrow> Inr (if 0 < b then d # r else r)))"

text \<open>
  \<^verbatim>\<open>outstanding.sort(key=..., reverse=True)\<close>. Python computes the key of every
  element first and then sorts by the keys; its sort is stable, also with
  \<^verbatim>\<open>reverse=True\<close>. The model is the insertion sort that has this behaviour: the
  elements are taken in input order, and each one goes behind every element whose key is
  not smaller.
\<close>

fun insert_desc :: "rat \<times> 'a \<Rightarrow> (rat \<times> 'a) list \<Rightarrow> (rat \<times> 'a) list" where
  "insert_desc p [] = [p]"
| "insert_desc p (q # qs) =
     (if fst q < fst p then p # q # qs else q # insert_desc p qs)"

definition sort_desc :: "(rat \<times> 'a) list \<Rightarrow> (rat \<times> 'a) list" where
  "sort_desc ps = foldl (\<lambda>acc p. insert_desc p acc) [] ps"

definition sort_by_balance :: "pydict list \<Rightarrow> pyexn + pydict list" where
  "sort_by_balance ds =
     (case map_exn (\<lambda>d. num_of (get_balance d)) ds of
        Inl e \<Rightarrow> Inl e
      | Inr keys \<Rightarrow> Inr (map snd (sort_desc (zip keys ds))))"

text \<open>
  The builtin \<^verbatim>\<open>sum\<close>, from the \<open>int\<close> \<open>0\<close> and from left to right. Numbers that
  are all \<open>int\<close> are added exactly; \<open>ints_of\<close> gives them, or \<open>None\<close> when some
  value is no \<open>int\<close>. Other numbers are added as floats (\<open>float_sum\<close>). A value that
  is no number raises \<open>TypeError\<close> when the sum comes to it, unless the numbers before
  it have raised already.
\<close>

fun is_number :: "pyval \<Rightarrow> bool" where
  "is_number (PyInt i) = True"
| "is_number (PyFloat r) = True"
| "is_number PyNone = False"
| "is_number (PyStr s) = False"

fun ints_of :: "pyval list \<Rightarrow> int list option" where
  "ints_of [] = Some []"
| "ints_of (PyInt i # vs) = (case ints_of vs of None \<Rightarrow> None | Some js \<Rightarrow> Some (i # js))"
| "ints_of (PyFloat r # vs) = None"
| "ints_of (PyNone # vs) = None"
| "ints_of (PyStr s # vs) = None"

definition sum_numbers :: "env \<Rightarrow> pyval list \<Rightarrow> pyexn + pysum" where
  "sum_numbers en ns =
     (case ints_of ns of
        Some js \<Rightarrow> Inr (SumInt (foldl (+) 0 js))
      | None \<Rightarrow> float_sum en ns)"

definition py_sum :: "env \<Rightarrow> pyval list \<Rightarrow> pyexn + pysum" where
  "py_sum en vs =
     (let ns = takeWhile is_number vs
      in case sum_numbers en ns of
           Inl e \<Rightarrow> Inl e
         | Inr tot \<Rightarrow> if length ns < length vs then Inl TypeError else Inr tot)"

text \<open>\<^verbatim>\<open>sum(d.get('balance', 0) for d in outstanding)\<close>\<close>

definition sum_balances :: "env \<Rightarrow> pydict list \<Rightarrow> pyexn + pysum" where
  "sum_balances en ds = py_sum en (map get_balance ds)"

text \<open>
  The total under \<^verbatim>\<open>:,.2f\<close>: an \<open>int\<close> is formatted as a balance is, and the floats
  that are no numbers print their names.
\<close>

fun format_total :: "pysum \<Rightarrow> pyexn + string" where
  "format_total (SumInt i) = format_2f (PyInt i)"
| "format_total (SumFloat r) = Inr (fmt_2f r)"
| "format_total SumInf = Inr ''inf''"
| "format_total SumMinusInf = Inr ''-inf''"
| "format_total SumNan = Inr ''nan''"

subsection \<open>The table\<close>

definition table_header :: string where
  "table_header = ljust 20 ''User'' @ '' '' @ ljust 25 ''Main Character'' @ '' '' @
     rjust 15 ''Balance'' @ ''\<newline>''"

definition separator :: string where
  "separator = replicate 60 CHR ''='' @ ''\<newline>''"

text \<open>The body of the loop over \<^verbatim>\<open>outstanding[:25]\<close>: one line of the table.\<close>

definition render_row :: "pydict \<Rightarrow> pyexn + string" where
  "render_row d =
     (case slice_to 19 (dict_get d ''username'' (PyStr ''Unknown'')) of
        Inl e \<Rightarrow> Inl e
      | Inr username \<Rightarrow>
     (case slice_to 24 (dict_get d ''main_character'' (PyStr ''N/A'')) of
        Inl e \<Rightarrow> Inl e
      | Inr main_char \<Rightarrow>
     (case format_2f (get_balance d) of
        Inl e \<Rightarrow> Inl e
      | Inr balance \<Rightarrow>
          Inr (ljust 20 username @ '' '' @ ljust 25 main_char @ '' '' @
               rjust 13 balance @ ''M\<newline>''))))"

definition overflow_line :: "nat \<Rightarrow> string" where
  "overflow_line n = ''\<newline>... and '' @ str_nat (n - 25) @ '' more users\<newline>''"

text \<open>\<^verbatim>\<open>f"{'TOTAL':<45} {total_outstanding:>13,.2f}M\n"\<close>\<close>

definition total_line :: "pysum \<Rightarrow> pyexn + string" where
  "total_line amount =
     (case format_total amount of
        Inl e \<Rightarrow> Inl e
      | Inr formatted \<Rightarrow> Inr (ljust 45 ''TOTAL'' @ '' '' @ rjust 13 formatted @ ''M\<newline>''))"

subsection \<open>The embed fields\<close>

record embed_field =
  field_name :: string
  field_value :: string
  field_inline :: bool

definition summary_field :: "nat \<Rightarrow> pysum \<Rightarrow> pyexn + embed_field" where
  "summary_field total_users total_outstanding =
     (case format_total total_outstanding of
        Inl e \<Rightarrow> Inl e
      | Inr formatted \<Rightarrow>
          Inr \<lparr>field_name = [CHR 0xF0, CHR 0x9F, CHR 0x93, CHR 0x8A] @ '' Summary'',
               field_value = ''**'' @ str_nat total_users @ ''** users owe taxes\<newline>**'' @
                 formatted @ '' M ISK** total outstanding'',
               field_inline = False\<rparr>)"

text \<open>One line of the top debtors, \<open>i\<close> counting from \<open>0\<close> as \<^verbatim>\<open>enumerate\<close> does.\<close>

definition top_line :: "nat \<times> pydict \<Rightarrow> pyexn + string" where
  "top_line p =
     (case str_of (dict_get (snd p) ''username'' (PyStr ''Unknown'')) of
        Inl e \<Rightarrow> Inl e
      | Inr username \<Rightarrow>
     (case format_2f (get_balance (snd p)) of
        Inl e \<Rightarrow> Inl e
      | Inr balance \<Rightarrow>
          Inr (str_nat (fst p + 1) @ ''. **'' @ username @ ''** - '' @ balance @ ''M ISK'')))"

text \<open>\<^verbatim>\<open>"\n".join(lines)\<close>\<close>

fun join_lines :: "string list \<Rightarrow> string" where
  "join_lines [] = []"
| "join_lines [l] = l"
| "join_lines (l # ls) = l @ ''\<newline>'' @ join_lines ls"

definition top_debtors_field :: "string \<Rightarrow> embed_field" where
  "top_debtors_field top_3 =
     \<lparr>field_name = [CHR 0xF0, CHR 0x9F, CHR 0x94, CHR 0xA5] @ '' Top Debtors'',
      field_value = top_3,
      field_inline = False\<rparr>"

subsection \<open>The report: lines 239 to 291 of the source\<close>

record report =
  r_description :: string
  r_fields :: "embed_field list"
  r_total_users :: nat
  r_total_outstanding :: pysum

text \<open>
  \<open>Inr None\<close> is the early \<^verbatim>\<open>return True\<close> of an empty \<open>outstanding\<close>; \<open>Inl\<close> is
  an exception raised on the way. The steps are in the order of the source: the filter,
  the sort, the sum, the rows, the line of the total, the summary, the top debtors.
\<close>

definition build_report :: "env \<Rightarrow> pydict list \<Rightarrow> pyexn + report option" where
  "build_report en tax_data =
     (case filter_outstanding tax_data of
        Inl e \<Rightarrow> Inl e
      | Inr unsorted \<Rightarrow>
     if length unsorted = 0 then Inr None
     else
     (case sort_by_balance unsorted of
        Inl e \<Rightarrow> Inl e
      | Inr outstanding \<Rightarrow>
     (case sum_balances en outstanding of
        Inl e \<Rightarrow> Inl e
      | Inr tot \<Rightarrow>
     (case map_exn render_row (take 25 outstanding) of
        Inl e \<Rightarrow> Inl e
      | Inr rows \<Rightarrow>
     (case total_line tot of
        Inl e \<Rightarrow> Inl e
      | Inr total_row \<Rightarrow>
     (case summary_field (length outstanding) tot of
        Inl e \<Rightarrow> Inl e
      | Inr summary \<Rightarrow>
     (let n = length outstanding;
          descr = ''```\<newline>'' @ table_header @ separator @ concat rows @
            (if 25 < n then overflow_line n else []) @
            separator @ total_row @ ''```''
      in if 3 \<le> n then
           (case map_exn top_line (enumerate 0 (take 3 outstanding)) of
              Inl e \<Rightarrow> Inl e
            | Inr tops \<Rightarrow>
                Inr (Some \<lparr>r_description = descr,
                  r_fields = [summary, top_debtors_field (join_lines tops)],
                  r_total_users = n, r_total_outstanding = tot\<rparr>))
         else
           Inr (Some \<lparr>r_description = descr, r_fields = [summary],
             r_total_users = n, r_total_outstanding = tot\<rparr>))))))))"

subsection \<open>What reaches the collaborators\<close>

record embed =
  e_title :: string
  e_description :: string
  e_color :: int
  e_fields :: "embed_field list"
  e_footer :: string
  e_timestamp :: string

record payload =
  p_username :: string
  p_embeds :: "embed list"

datatype loglevel = LogDebug | LogInfo | LogWarning | LogError

text \<open>
  What the function does to the outside, in order: \<open>BotSend c e\<close> is
  \<^verbatim>\<open>send_message(message="", channel_id=c, embed=e)\<close>, \<open>HttpPost url p\<close> is
  \<^verbatim>\<open>requests.post(url, data=json.dumps(p), ...)\<close> with the JSON content type and the
  timeout of 10, and \<open>Log\<close> is a line of the logger. A call that raises is recorded
  too: it was made.
\<close>

datatype event = BotSend int embed | HttpPost pyval payload | Log loglevel string

text \<open>\<^verbatim>\<open>int(channel_id)\<close>: a \<open>float\<close> is truncated towards zero.\<close>

definition py_int :: "env \<Rightarrow> pyval \<Rightarrow> pyexn + int" where
  "py_int en v =
     (case v of
        PyNone \<Rightarrow> Inl TypeError
      | PyInt i \<Rightarrow> Inr i
      | PyFloat r \<Rightarrow> Inr (if 0 \<le> r then \<lfloor>r\<rfloor> else \<lceil>r\<rceil>)
      | PyStr s \<Rightarrow> (case int_of_str en s of None \<Rightarrow> Inl ValueError | Some i \<Rightarrow> Inr i))"

definition report_title :: string where
  "report_title = [CHR 0xE2, CHR 0x9A, CHR 0xA0, CHR 0xEF, CHR 0xB8, CHR 0x8F] @
     '' Outstanding Mining Taxes Report''"

definition make_embed :: "env \<Rightarrow> report \<Rightarrow> embed" where
  "make_embed en rep =
     \<lparr>e_title = report_title,
      e_description = r_description rep,
      e_color = 0xe74c3c,
      e_fields = r_fields rep,
      e_footer = ''MiningTaxes Corp Summary '' @ [CHR 0xE2, CHR 0x80, CHR 0xA2] @ '' '' @
        str_nat (r_total_users rep) @ '' users with outstanding taxes'',
      e_timestamp = utcnow en\<rparr>"

text \<open>
  \<^verbatim>\<open>f"{total_users} users, {total_outstanding:,.2f}M ISK"\<close>, the end of the two
  log lines of a success.
\<close>

definition totals_text :: "report \<Rightarrow> pyexn + string" where
  "totals_text rep =
     (case format_total (r_total_outstanding rep) of
        Inl e \<Rightarrow> Inl e
      | Inr formatted \<Rightarrow>
          Inr (str_nat (r_total_users rep) @ '' users, '' @ formatted @ ''M ISK''))"

text \<open>
  The \<^verbatim>\<open>try\<close> block under \<^verbatim>\<open>if channel_id:\<close> (lines 295 to 322). \<open>Inr ()\<close> is
  its \<^verbatim>\<open>return True\<close>.
\<close>

definition bot_block :: "env \<Rightarrow> pyval \<Rightarrow> report \<Rightarrow> (pyexn + unit) \<times> event list" where
  "bot_block en channel_id rep =
     (case import_bot en of
        Some e \<Rightarrow> (Inl e, [])
      | None \<Rightarrow>
     (case py_int en channel_id of
        Inl e \<Rightarrow> (Inl e, [])
      | Inr c \<Rightarrow>
     (case send_message en of
        Some e \<Rightarrow> (Inl e, [BotSend c (make_embed en rep)])
      | None \<Rightarrow>
     (case totals_text rep of
        Inl e \<Rightarrow> (Inl e, [BotSend c (make_embed en rep)])
      | Inr totals \<Rightarrow>
          (Inr (),
           [BotSend c (make_embed en rep),
            Log LogInfo (''Successfully queued corp tax summary via aadiscordbot: '' @
              totals)])))))"

text \<open>
  The webhook part (lines 331 to 360). \<open>Inr None\<close> is the end of the function body
  reached with no \<^verbatim>\<open>return\<close>: Python's \<open>None\<close>.
\<close>

definition webhook_block ::
  "env \<Rightarrow> pyval \<Rightarrow> report \<Rightarrow> (pyexn + bool option) \<times> event list" where
  "webhook_block en webhook_url rep =
     (if truthy webhook_url then
        (let post = HttpPost webhook_url
               \<lparr>p_username = ''MiningTaxes Corp Summary'', p_embeds = [make_embed en rep]\<rparr>
         in case requests_post en of
              Inl e \<Rightarrow> (Inl e, [post])
            | Inr status \<Rightarrow>
                if status = 200 \<or> status = 204 then
                  (case totals_text rep of
                     Inl e \<Rightarrow> (Inl e, [post])
                   | Inr totals \<Rightarrow>
                       (Inr (Some True),
                        [post, Log LogInfo (''Successfully sent corp tax summary: '' @
                           totals)]))
                else
                  (Inr (Some False),
                   [post, Log LogWarning (''Failed to send corp tax summary. Status: '' @
                      str_int status)]))
      else (Inr None, []))"

text \<open>Lines 293 to 360: the bot first, the webhook as the fallback.\<close>

definition dispatch ::
  "env \<Rightarrow> pyval \<Rightarrow> pyval \<Rightarrow> report \<Rightarrow> (pyexn + bool option) \<times> event list" where
  "dispatch en webhook_url channel_id rep =
     (if truthy channel_id then
        (case bot_block en channel_id rep of
           (Inr u, evs) \<Rightarrow> (Inr (Some True), evs)
         | (Inl ImportError, evs) \<Rightarrow>
             (let evs1 = evs @
                    [Log LogDebug ''aadiscordbot not available, falling back to webhook'']
              in if \<not> truthy webhook_url then
                   (Inr (Some False),
                    evs1 @ [Log LogError ''No webhook URL provided for fallback''])
                 else
                   (case webhook_block en webhook_url rep of
                      (r, evs2) \<Rightarrow> (r, evs1 @ evs2)))
         | (Inl e, evs) \<Rightarrow> (Inl e, evs))
      else webhook_block en webhook_url rep)"

text \<open>The body of the outer \<^verbatim>\<open>try\<close> (lines 239 to 360).\<close>

definition try_body ::
  "env \<Rightarrow> pyval \<Rightarrow> pydict list \<Rightarrow> pyval \<Rightarrow> (pyexn + bool option) \<times> event list" where
  "try_body en webhook_url tax_data channel_id =
     (case build_report en tax_data of
        Inl e \<Rightarrow> (Inl e, [])
      | Inr None \<Rightarrow> (Inr (Some True), [])
      | Inr (Some rep) \<Rightarrow> dispatch en webhook_url channel_id rep)"

text \<open>
  The function. Its result is what the caller sees: \<open>Inl e\<close> an exception that leaves
  the function, \<open>Inr (Some b)\<close> the boolean returned, \<open>Inr None\<close> Python's \<open>None\<close>.
  The text of the caught exception, which the last log line ends with, is not modelled.
\<close>

definition send_corp_tax_summary ::
  "env \<Rightarrow> pyval \<Rightarrow> pydict list \<Rightarrow> pyval \<Rightarrow> (pyexn + bool option) \<times> event list" where
  "send_corp_tax_summary en webhook_url tax_data channel_id =
     (if (\<not> truthy webhook_url \<and> \<not> truthy channel_id) \<or> length tax_data = 0 then
        (Inr (Some False), [])
      else
        (case try_body en webhook_url tax_data channel_id of
           (Inl e, evs) \<Rightarrow>
             (Inr (Some False), evs @ [Log LogError ''Error sending corp tax summary: ''])
         | (Inr r, evs) \<Rightarrow> (Inr r, evs)))"

subsection \<open>Words of the specification\<close>

text \<open>
  A qualifying record has a balance above zero; a record with no balance counts with
  \<open>0\<close>. \<open>balance_num\<close> is the balance as a number.
\<close>

definition qualifying :: "pydict \<Rightarrow> bool" where
  "qualifying d =
     (case get_balance d of
        PyInt i \<Rightarrow> 0 < i | PyFloat r \<Rightarrow> 0 < r | PyNone \<Rightarrow> False | PyStr s \<Rightarrow> False)"

definition balance_num :: "pydict \<Rightarrow> rat" where
  "balance_num d =
     (case get_balance d of
        PyInt i \<Rightarrow> of_int i | PyFloat r \<Rightarrow> r | PyNone \<Rightarrow> 0 | PyStr s \<Rightarrow> 0)"

text \<open>The balance of the record is a number, or the record has none.\<close>

definition numeric_balance :: "pydict \<Rightarrow> bool" where
  "numeric_balance d =
     (case get_balance d of
        PyInt i \<Rightarrow> True | PyFloat r \<Rightarrow> True | PyNone \<Rightarrow> False | PyStr s \<Rightarrow> False)"



text \<open>The qualifying records in the order of the report.\<close>

definition sorted_outstanding :: "pydict list \<Rightarrow> pydict list" where
  "sorted_outstanding tax_data =
     map snd (sort_desc (map (\<lambda>d. (balance_num d, d)) (filter qualifying tax_data)))"

text \<open>
  What a row and a line of the top debtors show: the name of the user (\<open>Unknown\<close> when
  the record has none), the main character (\<open>N/A\<close> when it has none) and the balance
  with two decimals. \<open>formats\<close> says that the balance has such a text.
\<close>

definition username_of :: "pydict \<Rightarrow> string" where
  "username_of d = (case d ''username'' of Some (PyStr s) \<Rightarrow> s | _ \<Rightarrow> ''Unknown'')"

definition main_character_of :: "pydict \<Rightarrow> string" where
  "main_character_of d = (case d ''main_character'' of Some (PyStr s) \<Rightarrow> s | _ \<Rightarrow> ''N/A'')"

definition formats :: "pydict \<Rightarrow> bool" where
  "formats d = (case format_2f (get_balance d) of Inl e \<Rightarrow> False | Inr s \<Rightarrow> True)"

definition balance_text :: "pydict \<Rightarrow> string" where
  "balance_text d = (case format_2f (get_balance d) of Inl e \<Rightarrow> [] | Inr s \<Rightarrow> s)"

definition row_of :: "pydict \<Rightarrow> string" where
  "row_of d = ljust 20 (take 19 (username_of d)) @ '' '' @
     ljust 25 (take 24 (main_character_of d)) @ '' '' @
     rjust 13 (balance_text d) @ ''M\<newline>''"

definition debtor_line :: "nat \<Rightarrow> pydict \<Rightarrow> string" where
  "debtor_line k d = str_nat k @ ''. **'' @ username_of d @ ''** - '' @
     balance_text d @ ''M ISK''"

text \<open>
  The values of a record have the types the docstring gives them: the names are
  \<open>str\<close> and the balance is a number, where the record has them. A record can be
  rendered when, in addition, its balance has a text.
\<close>

definition typed_record :: "pydict \<Rightarrow> bool" where
  "typed_record d =
     ((case d ''username'' of None \<Rightarrow> True | Some (PyStr s) \<Rightarrow> True | Some _ \<Rightarrow> False) \<and>
      (case d ''main_character'' of None \<Rightarrow> True | Some (PyStr s) \<Rightarrow> True | Some _ \<Rightarrow> False) \<and>
      (case d ''balance'' of
         None \<Rightarrow> True | Some (PyInt i) \<Rightarrow> True | Some (PyFloat r) \<Rightarrow> True | Some _ \<Rightarrow> False))"

definition renderable :: "pydict \<Rightarrow> bool" where
  "renderable d = (typed_record d \<and> formats d)"

text \<open>The calls that leave the process.\<close>

fun is_http_post :: "event \<Rightarrow> bool" where
  "is_http_post (HttpPost url p) = True"
| "is_http_post (BotSend c e) = False"
| "is_http_post (Log l s) = False"

fun is_bot_send :: "event \<Rightarrow> bool" where
  "is_bot_send (BotSend c e) = True"
| "is_bot_send (HttpPost url p) = False"
| "is_bot_send (Log l s) = False"

definition outbound :: "event list \<Rightarrow> event list" where
  "outbound evs = filter (\<lambda>ev. is_http_post ev \<or> is_bot_send ev) evs"

text \<open>
  The text of the table, written out: what stands above the rows, and what stands below
  them around the text of the total.
\<close>

definition table_head :: string where
  "table_head =
     ''```\<newline>'' @
     ''User                 Main Character                    Balance\<newline>'' @
     ''============================================================\<newline>''"

definition table_foot :: "string \<Rightarrow> string" where
  "table_foot total_text =
     ''============================================================\<newline>'' @
     ''TOTAL                                         '' @ rjust 13 total_text @ ''M\<newline>'' @
     ''```''"

text \<open>
  The report as the specification describes it, from the qualifying records, the total
  and its text: the table of the first 25 records in sorted order, the overflow note,
  the line of the total, the summary and, from three records on, the top debtors.
\<close>

definition expected_report :: "pydict list \<Rightarrow> pysum \<Rightarrow> string \<Rightarrow> report" where
  "expected_report tax_data tot total_text =
     (let s = sorted_outstanding tax_data;
          n = length s;
          summary =
            \<lparr>field_name = [CHR 0xF0, CHR 0x9F, CHR 0x93, CHR 0x8A] @ '' Summary'',
             field_value = ''**'' @ str_nat n @ ''** users owe taxes\<newline>**'' @
               total_text @ '' M ISK** total outstanding'',
             field_inline = False\<rparr>
      in \<lparr>r_description = table_head @
            concat (map row_of (take 25 s)) @
            (if 25 < n then ''\<newline>... and '' @ str_nat (n - 25) @ '' more users\<newline>''
             else []) @
            table_foot total_text,
          r_fields =
            (if 3 \<le> n then
               [summary,
                \<lparr>field_name = [CHR 0xF0, CHR 0x9F, CHR 0x94, CHR 0xA5] @ '' Top Debtors'',
                 field_value =
                   join_lines (map (\<lambda>p. debtor_line (fst p + 1) (snd p))
                     (enumerate 0 (take 3 s))),
                 field_inline = False\<rparr>]
             else [summary]),
          r_total_users = n,
          r_total_outstanding = tot\<rparr>)"

subsection \<open>Example inputs\<close>

text \<open>
  A record with its three keys. The two records of the docstring's example: the floats
  \<open>125.5\<close> and \<open>89.23\<close>, each by its exact value. 26 records with the balances 1 to
  26; three records, two of them with the same balance.
\<close>

definition debtor :: "string \<Rightarrow> string \<Rightarrow> pyval \<Rightarrow> pydict" where
  "debtor u m b =
     [''username'' \<mapsto> PyStr u, ''main_character'' \<mapsto> PyStr m, ''balance'' \<mapsto> b]"

definition example_two :: "pydict list" where
  "example_two =
     [debtor ''john_doe'' ''John Doe'' (PyFloat (251 / 2)),
      debtor ''jane_smith'' ''Jane Smith'' (PyFloat (6279003042972959 / 70368744177664))]"


definition example_ties :: "pydict list" where
  "example_ties =
     [debtor ''first'' ''Alpha'' (PyInt 5), debtor ''second'' ''Beta'' (PyInt 5),
      debtor ''third'' ''Gamma'' (PyInt 7)]"

text \<open>
  A record with the balance 0 and a record whose balance is \<open>None\<close>. Four records
  with keys missing, the last one with no balance. A record whose name is \<open>None\<close>.
\<close>

definition example_idle :: "pydict list" where
  "example_idle = [debtor ''idle'' ''Idle'' (PyInt 0)]"

definition example_broken :: "pydict list" where
  "example_broken = [[''username'' \<mapsto> PyStr ''ghost'', ''balance'' \<mapsto> PyNone]]"



text \<open>
  A webhook address, and three states of the collaborators: the bot installed, the bot
  missing, and the bot missing with a webhook request that raises. The only floats of
  the examples are those of the docstring, and the interpreter's sum of them is the
  double \<open>214.73000000000002\<close>, here by its exact value.
\<close>

definition example_url :: pyval where
  "example_url = PyStr ''https://discord.com/api/webhooks/1/token''"

definition docstring_sum :: "pyval list \<Rightarrow> pyexn + pysum" where
  "docstring_sum ns = Inr (SumFloat (472196263664681 / 2199023255552))"

definition env_bot :: env where
  "env_bot = \<lparr>import_bot = None, send_message = None, requests_post = Inr 204,
     int_of_str = (\<lambda>s. None), utcnow = ''2024-01-01T00:00:00'',
     float_sum = docstring_sum\<rparr>"

definition env_no_bot :: env where
  "env_no_bot = \<lparr>import_bot = Some ImportError, send_message = None, requests_post = Inr 204,
     int_of_str = (\<lambda>s. None), utcnow = ''2024-01-01T00:00:00'',
     float_sum = docstring_sum\<rparr>"

definition env_post_fails :: env where
  "env_post_fails = \<lparr>import_bot = Some ImportError, send_message = None,
     requests_post = Inl OtherException,
     int_of_str = (\<lambda>s. None), utcnow = ''2024-01-01T00:00:00'',
     float_sum = docstring_sum\<rparr>"

text \<open>The report of the docstring's example, written out.\<close>

definition report_two :: report where
  "report_two =
     \<lparr>r_description =
        ''```\<newline>'' @
        ''User                 Main Character                    Balance\<newline>'' @
        ''============================================================\<newline>'' @
        ''john_doe             John Doe                         125.50M\<newline>'' @
        ''jane_smith           Jane Smith                        89.23M\<newline>'' @
        ''============================================================\<newline>'' @
        ''TOTAL                                                214.73M\<newline>'' @
        ''```'',
      r_fields =
        [\<lparr>field_name = [CHR 0xF0, CHR 0x9F, CHR 0x93, CHR 0x8A] @ '' Summary'',
          field_value = ''**2** users owe taxes\<newline>**214.73 M ISK** total outstanding'',
          field_inline = False\<rparr>],
      r_total_users = 2,
      r_total_outstanding = SumFloat (472196263664681 / 2199023255552)\<rparr>"

section \<open>Properties\<close>

subsection \<open>Comprehensions\<close>

lemma map_exn_Inr:
  "(\<And>x. x \<in> set xs \<Longrightarrow> f x = Inr (g x)) \<Longrightarrow> map_exn f xs = Inr (map g xs)"
  by (induction xs) simp_all

lemma map_exn_Inr_D:
  "map_exn f xs = Inr ys \<Longrightarrow> length ys = length xs \<and> (\<forall>i < length xs. f (xs ! i) = Inr (ys ! i))"
proof (induction xs arbitrary: ys)
  case Nil
  then show ?case by simp
next
  case (Cons x xs)
  from Cons.prems obtain y ys' where fx: "f x = Inr y" and rest: "map_exn f xs = Inr ys'"
    and ys: "ys = y # ys'"
    by (auto split: sum.splits)
  from Cons.IH [OF rest] have len: "length ys' = length xs"
    and nth: "\<forall>i < length xs. f (xs ! i) = Inr (ys' ! i)" by simp_all
  show ?case
  proof (intro conjI allI impI)
    show "length ys = length (x # xs)" using len ys by simp
  next
    fix i assume "i < length (x # xs)"
    then show "f ((x # xs) ! i) = Inr (ys ! i)"
      using fx nth ys by (cases i) simp_all
  qed
qed

lemma num_of_numeric:
  "numeric_balance d \<Longrightarrow> num_of (get_balance d) = Inr (balance_num d)"
  by (cases "get_balance d") (simp_all add: numeric_balance_def balance_num_def)

lemma num_of_Inr_D:
  "num_of (get_balance d) = Inr b \<Longrightarrow> numeric_balance d \<and> b = balance_num d"
  by (cases "get_balance d") (simp_all add: numeric_balance_def balance_num_def)

lemma qualifying_iff: "qualifying d \<longleftrightarrow> numeric_balance d \<and> 0 < balance_num d"
  by (cases "get_balance d") (simp_all add: qualifying_def numeric_balance_def balance_num_def)

lemma filter_outstanding_numeric:
  "(\<And>d. d \<in> set ds \<Longrightarrow> numeric_balance d) \<Longrightarrow>
   filter_outstanding ds = Inr (filter qualifying ds)"
proof (induction ds)
  case Nil
  then show ?case by simp
next
  case (Cons d ds)
  have nb: "numeric_balance d" using Cons.prems by simp
  have q: "qualifying d \<longleftrightarrow> 0 < balance_num d"
    using nb qualifying_iff [of d] by simp
  have "filter_outstanding ds = Inr (filter qualifying ds)"
    using Cons.IH Cons.prems by simp
  then show ?case using q by (simp add: num_of_numeric [OF nb])
qed

lemma filter_outstanding_Inr_D:
  "filter_outstanding ds = Inr r \<Longrightarrow>
   r = filter qualifying ds \<and> (\<forall>d \<in> set ds. numeric_balance d)"
proof (induction ds arbitrary: r)
  case Nil
  then show ?case by simp
next
  case (Cons d ds)
  from Cons.prems obtain b r' where b: "num_of (get_balance d) = Inr b"
    and r': "filter_outstanding ds = Inr r'" and r: "r = (if 0 < b then d # r' else r')"
    by (auto split: sum.splits)
  from num_of_Inr_D [OF b] have nb: "numeric_balance d" and bb: "b = balance_num d"
    by simp_all
  from Cons.IH [OF r'] have "r' = filter qualifying ds" and "\<forall>d \<in> set ds. numeric_balance d"
    by simp_all
  moreover have "qualifying d \<longleftrightarrow> 0 < b"
    using nb bb qualifying_iff [of d] by simp
  ultimately show ?case using r nb by simp
qed

subsection \<open>The sum\<close>









subsection \<open>The sort\<close>

lemma mset_insert_desc: "mset (insert_desc p ps) = add_mset p (mset ps)"
  by (induction ps) simp_all

lemma set_insert_desc: "set (insert_desc p ps) = insert p (set ps)"
  by (induction ps) auto

lemma descending_insert_desc:
  "sorted_wrt (\<lambda>a b. fst b \<le> fst a) ps \<Longrightarrow>
   sorted_wrt (\<lambda>a b. fst b \<le> fst a) (insert_desc p ps)"
  by (induction ps) (auto simp: set_insert_desc)

lemma ties_insert_desc:
  "sorted_wrt (\<lambda>a b. fst b \<le> fst a) ps \<Longrightarrow>
   filter (\<lambda>q. fst q = k) (insert_desc p ps) =
   filter (\<lambda>q. fst q = k) ps @ (if fst p = k then [p] else [])"
proof (induction ps)
  case Nil
  then show ?case by simp
next
  case (Cons q qs)
  show ?case
  proof (cases "fst q < fst p")
    case True
    have below: "\<forall>x \<in> set (q # qs). fst x < fst p"
      using True Cons.prems by auto
    show ?thesis
    proof (cases "fst p = k")
      case same: True
      have "filter (\<lambda>x. fst x = k) (q # qs) = []"
        using below same by (auto simp: filter_empty_conv)
      then show ?thesis using True same by simp
    next
      case False
      then show ?thesis using True by simp
    qed
  next
    case False
    have "sorted_wrt (\<lambda>a b. fst b \<le> fst a) qs" using Cons.prems by simp
    from Cons.IH [OF this] show ?thesis using False by simp
  qed
qed

lemma foldl_insert_desc:
  "sorted_wrt (\<lambda>a b. fst b \<le> fst a) acc \<Longrightarrow>
   sorted_wrt (\<lambda>a b. fst b \<le> fst a) (foldl (\<lambda>acc p. insert_desc p acc) acc ps) \<and>
   mset (foldl (\<lambda>acc p. insert_desc p acc) acc ps) = mset acc + mset ps \<and>
   filter (\<lambda>q. fst q = k) (foldl (\<lambda>acc p. insert_desc p acc) acc ps) =
     filter (\<lambda>q. fst q = k) acc @ filter (\<lambda>q. fst q = k) ps"
proof (induction ps arbitrary: acc)
  case Nil
  then show ?case by simp
next
  case (Cons p ps)
  have step: "sorted_wrt (\<lambda>a b. fst b \<le> fst a) (insert_desc p acc)"
    using Cons.prems by (rule descending_insert_desc)
  from Cons.IH [OF step] show ?case
    using ties_insert_desc [OF Cons.prems, of k p] by (simp add: mset_insert_desc)
qed

lemma descending_sort_desc: "sorted_wrt (\<lambda>a b. fst b \<le> fst a) (sort_desc ps)"
  using foldl_insert_desc [of "[]" ps] by (simp add: sort_desc_def)

lemma mset_sort_desc: "mset (sort_desc ps) = mset ps"
  using foldl_insert_desc [of "[]" ps] by (simp add: sort_desc_def)

lemma ties_sort_desc:
  "filter (\<lambda>q. fst q = k) (sort_desc ps) = filter (\<lambda>q. fst q = k) ps"
  using foldl_insert_desc [of "[]" ps k] by (simp add: sort_desc_def)

lemma set_sort_desc: "set (sort_desc ps) = set ps"
  using mset_sort_desc [of ps] by (metis set_mset_mset)

text \<open>The sort of records, decorated with their keys.\<close>

lemma keyed_sort_pairs:
  "p \<in> set (sort_desc (map (\<lambda>d. (f d, d)) ds)) \<Longrightarrow> fst p = f (snd p)"
  by (auto simp: set_sort_desc)

lemma keyed_sort_descending:
  "sorted_wrt (\<lambda>a b. f b \<le> f a) (map snd (sort_desc (map (\<lambda>d. (f d, d)) ds)))"
proof -
  let ?S = "sort_desc (map (\<lambda>d. (f d, d)) ds)"
  have "sorted_wrt (\<lambda>a b. fst b \<le> fst a) ?S" by (rule descending_sort_desc)
  then have "sorted_wrt (\<lambda>a b. f (snd b) \<le> f (snd a)) ?S"
  proof (rule sorted_wrt_mono_rel [rotated])
    fix a b assume "a \<in> set ?S" and "b \<in> set ?S" and "fst b \<le> fst a"
    then show "f (snd b) \<le> f (snd a)"
      using keyed_sort_pairs [of a f ds] keyed_sort_pairs [of b f ds] by simp
  qed
  then show ?thesis by (simp add: sorted_wrt_map)
qed

lemma keyed_sort_mset:
  "mset (map snd (sort_desc (map (\<lambda>d. (f d, d)) ds))) = mset ds"
proof -
  have "mset (map snd (sort_desc (map (\<lambda>d. (f d, d)) ds))) =
        image_mset snd (mset (sort_desc (map (\<lambda>d. (f d, d)) ds)))" by simp
  also have "\<dots> = image_mset snd (mset (map (\<lambda>d. (f d, d)) ds))"
    by (simp only: mset_sort_desc)
  also have "\<dots> = mset ds" by (simp add: image_mset.compositionality comp_def)
  finally show ?thesis .
qed

lemma keyed_sort_ties:
  "filter (\<lambda>d. f d = k) (map snd (sort_desc (map (\<lambda>d. (f d, d)) ds))) =
   filter (\<lambda>d. f d = k) ds"
proof -
  let ?S = "sort_desc (map (\<lambda>d. (f d, d)) ds)"
  have "filter (\<lambda>d. f d = k) (map snd ?S) = map snd (filter (\<lambda>p. f (snd p) = k) ?S)"
    by (simp add: filter_map comp_def)
  also have "filter (\<lambda>p. f (snd p) = k) ?S = filter (\<lambda>p. fst p = k) ?S"
    by (rule filter_cong) (auto dest: keyed_sort_pairs)
  also have "\<dots> = filter (\<lambda>p. fst p = k) (map (\<lambda>d. (f d, d)) ds)"
    by (rule ties_sort_desc)
  also have "map snd \<dots> = filter (\<lambda>d. f d = k) ds"
    by (induction ds) simp_all
  finally show ?thesis .
qed

lemma zip_keys: "zip (map f ds) ds = map (\<lambda>d. (f d, d)) ds"
  by (induction ds) simp_all

lemma sort_by_balance_numeric:
  assumes "\<And>d. d \<in> set ds \<Longrightarrow> numeric_balance d"
  shows "sort_by_balance ds =
         Inr (map snd (sort_desc (map (\<lambda>d. (balance_num d, d)) ds)))"
proof -
  have "map_exn (\<lambda>d. num_of (get_balance d)) ds = Inr (map balance_num ds)"
    using assms by (intro map_exn_Inr) (simp add: num_of_numeric)
  then show ?thesis by (simp add: sort_by_balance_def zip_keys)
qed

subsection \<open>Rows and lines\<close>

lemma typed_record_numeric: "typed_record d \<Longrightarrow> numeric_balance d"
  by (auto simp: typed_record_def numeric_balance_def get_balance_def dict_get_def
      split: option.splits pyval.splits)

lemma format_2f_formats:
  "formats d \<Longrightarrow> format_2f (get_balance d) = Inr (balance_text d)"
  by (cases "format_2f (get_balance d)") (simp_all add: formats_def balance_text_def)

lemma format_2f_Inr_D:
  assumes "format_2f (get_balance d) = Inr s"
  shows "formats d" and "s = balance_text d" and "numeric_balance d"
proof -
  show "formats d" and "s = balance_text d"
    using assms by (simp_all add: formats_def balance_text_def)
  show "numeric_balance d"
    using assms by (cases "get_balance d") (simp_all add: numeric_balance_def)
qed

lemma typed_record_names:
  assumes "typed_record d"
  shows "dict_get d ''username'' (PyStr ''Unknown'') = PyStr (username_of d)"
    and "dict_get d ''main_character'' (PyStr ''N/A'') = PyStr (main_character_of d)"
  using assms
  by (auto simp: typed_record_def username_of_def main_character_of_def dict_get_def
      split: option.splits pyval.splits)

lemma render_row_renderable: "renderable d \<Longrightarrow> render_row d = Inr (row_of d)"
  by (simp add: renderable_def render_row_def row_of_def typed_record_names
      format_2f_formats)

lemma slice_to_Inr_D: "slice_to n v = Inr s \<Longrightarrow> \<exists>w. v = PyStr w \<and> s = take n w"
  by (cases v) simp_all

lemma render_row_Inr_D:
  assumes "render_row d = Inr r"
  shows "r = row_of d"
    and "dict_get d ''username'' (PyStr ''Unknown'') = PyStr (username_of d)"
    and "numeric_balance d"
    and "formats d"
proof -
  from assms obtain u m b
    where u: "slice_to 19 (dict_get d ''username'' (PyStr ''Unknown'')) = Inr u"
      and m: "slice_to 24 (dict_get d ''main_character'' (PyStr ''N/A'')) = Inr m"
      and b: "format_2f (get_balance d) = Inr b"
      and r: "r = ljust 20 u @ '' '' @ ljust 25 m @ '' '' @ rjust 13 b @ ''M\<newline>''"
    by (auto simp: render_row_def split: sum.splits)
  from slice_to_Inr_D [OF u] obtain un
    where un: "dict_get d ''username'' (PyStr ''Unknown'') = PyStr un" and u': "u = take 19 un"
    by blast
  from slice_to_Inr_D [OF m] obtain mn
    where mn: "dict_get d ''main_character'' (PyStr ''N/A'') = PyStr mn" and m': "m = take 24 mn"
    by blast
  have une: "un = username_of d"
    using un by (auto simp: dict_get_def username_of_def split: option.splits pyval.splits)
  have mne: "mn = main_character_of d"
    using mn by (auto simp: dict_get_def main_character_of_def split: option.splits pyval.splits)
  show "r = row_of d"
    using r u' m' une mne format_2f_Inr_D(2) [OF b] by (simp add: row_of_def)
  show "dict_get d ''username'' (PyStr ''Unknown'') = PyStr (username_of d)"
    using un une by simp
  show "numeric_balance d" using b by (rule format_2f_Inr_D(3))
  show "formats d" using b by (rule format_2f_Inr_D(1))
qed

text \<open>
  A record whose row was rendered has a \<open>str\<close> for a name and a balance that has a
  text, so its line of the top debtors is rendered too.
\<close>

lemma top_lines_of_rendered:
  assumes "render_row d = Inr r"
  shows "top_line (i, d) = Inr (debtor_line (i + 1) d)"
  using render_row_Inr_D(2,4) [OF assms]
  by (simp add: top_line_def debtor_line_def format_2f_formats)

lemma render_rows_Inr_D:
  "map_exn render_row ds = Inr rows \<Longrightarrow>
   rows = map row_of ds \<and> (\<forall>d \<in> set ds. \<exists>r. render_row d = Inr r)"
proof (induction ds arbitrary: rows)
  case Nil
  then show ?case by simp
next
  case (Cons d ds)
  from Cons.prems obtain r rs where r: "render_row d = Inr r"
    and rs: "map_exn render_row ds = Inr rs" and rows: "rows = r # rs"
    by (auto split: sum.splits)
  from Cons.IH [OF rs] render_row_Inr_D(1) [OF r] r rows show ?case by auto
qed

subsection \<open>The text of the table\<close>

lemma table_head_eq: "''```\<newline>'' @ table_header @ separator = table_head"
  by code_simp

lemma total_prefix_eq:
  "ljust 45 ''TOTAL'' @ '' '' = ''TOTAL                                         ''"
  by code_simp

lemma separator_eq:
  "separator = ''============================================================\<newline>''"
  by code_simp

lemma total_line_formatted:
  "format_total tot = Inr formatted \<Longrightarrow>
   total_line tot =
     Inr (''TOTAL                                         '' @ rjust 13 formatted @ ''M\<newline>'')"
  using total_prefix_eq by (simp add: total_line_def)

lemma summary_field_formatted:
  "format_total tot = Inr formatted \<Longrightarrow>
   summary_field n tot =
     Inr \<lparr>field_name = [CHR 0xF0, CHR 0x9F, CHR 0x93, CHR 0x8A] @ '' Summary'',
          field_value = ''**'' @ str_nat n @ ''** users owe taxes\<newline>**'' @
            formatted @ '' M ISK** total outstanding'',
          field_inline = False\<rparr>"
  by (simp add: summary_field_def)

lemma total_line_Inr_D: "total_line tot = Inr row \<Longrightarrow> \<exists>formatted. format_total tot = Inr formatted"
  by (cases "format_total tot") (simp_all add: total_line_def)

subsection \<open>The report\<close>

lemma length_sort_desc: "length (sort_desc ps) = length ps"
  using arg_cong [OF mset_sort_desc [of ps], of size] by simp

lemma length_sorted_outstanding:
  "length (sorted_outstanding tax_data) = length (filter qualifying tax_data)"
  by (simp add: sorted_outstanding_def length_sort_desc)

lemma set_sorted_outstanding:
  "set (sorted_outstanding tax_data) = set (filter qualifying tax_data)"
  by (simp add: sorted_outstanding_def set_sort_desc image_image)

lemma sorted_outstanding_mset:
  "mset (sorted_outstanding tax_data) = mset (filter qualifying tax_data)"
  unfolding sorted_outstanding_def by (rule keyed_sort_mset)

lemma top_lines_rendered:
  assumes "\<And>d. d \<in> set ds \<Longrightarrow> \<exists>r. render_row d = Inr r"
  shows "map_exn top_line (enumerate k ds) =
         Inr (map (\<lambda>p. debtor_line (fst p + 1) (snd p)) (enumerate k ds))"
proof (rule map_exn_Inr)
  fix p assume "p \<in> set (enumerate k ds)"
  then have "snd p \<in> snd ` set (enumerate k ds)" by (rule imageI)
  then have "snd p \<in> set ds" by (simp flip: set_map)
  then obtain r where "render_row (snd p) = Inr r" using assms by blast
  from top_lines_of_rendered [OF this, of "fst p"]
  show "top_line p = Inr (debtor_line (fst p + 1) (snd p))" by simp
qed

text \<open>The steps of \<open>build_report\<close>, each with its result.\<close>

lemma build_report_steps:
  assumes "filter_outstanding tax_data = Inr q"
    and "sort_by_balance q = Inr s"
    and "sum_balances en s = Inr tot"
    and "map_exn render_row (take 25 s) = Inr rows"
    and "format_total tot = Inr formatted"
    and "map_exn top_line (enumerate 0 (take 3 s)) = Inr tops"
  shows "build_report en tax_data =
     Inr (if length q = 0 then None
          else Some \<lparr>r_description = ''```\<newline>'' @ table_header @ separator @ concat rows @
                 (if 25 < length s then overflow_line (length s) else []) @
                 separator @
                 (''TOTAL                                         '' @ rjust 13 formatted @
                  ''M\<newline>'') @ ''```'',
               r_fields =
                 (if 3 \<le> length s
                  then [\<lparr>field_name = [CHR 0xF0, CHR 0x9F, CHR 0x93, CHR 0x8A] @ '' Summary'',
                          field_value = ''**'' @ str_nat (length s) @
                            ''** users owe taxes\<newline>**'' @
                            formatted @ '' M ISK** total outstanding'',
                          field_inline = False\<rparr>,
                        top_debtors_field (join_lines tops)]
                  else [\<lparr>field_name = [CHR 0xF0, CHR 0x9F, CHR 0x93, CHR 0x8A] @ '' Summary'',
                          field_value = ''**'' @ str_nat (length s) @
                            ''** users owe taxes\<newline>**'' @
                            formatted @ '' M ISK** total outstanding'',
                          field_inline = False\<rparr>]),
               r_total_users = length s, r_total_outstanding = tot\<rparr>)"
  unfolding build_report_def Let_def
  using assms(1-4,6) total_line_formatted [OF assms(5)]
    summary_field_formatted [OF assms(5), of "length s"]
  by simp

text \<open>The report of the steps is the one the specification describes.\<close>

lemma description_eq:
  "''```\<newline>'' @ table_header @ separator @ rows @ note @ separator @
     (''TOTAL                                         '' @ rjust 13 formatted @
      ''M\<newline>'') @ ''```'' =
   table_head @ rows @ note @ table_foot formatted"
proof -
  have "''```\<newline>'' @ table_header @ separator @ rows @ note @ separator @
     (''TOTAL                                         '' @ rjust 13 formatted @
      ''M\<newline>'') @ ''```'' =
     (''```\<newline>'' @ table_header @ separator) @ rows @ note @
     (separator @ ''TOTAL                                         '' @ rjust 13 formatted @
      ''M\<newline>'' @ ''```'')"
    by (simp only: append_assoc)
  also have "separator @ ''TOTAL                                         '' @
      rjust 13 formatted @ ''M\<newline>'' @ ''```'' = table_foot formatted"
    by (simp only: separator_eq table_foot_def)
  finally show ?thesis by (simp only: table_head_eq)
qed

lemma expected_report_steps:
  assumes "length (sorted_outstanding tax_data) \<noteq> 0"
  shows "(if length (filter qualifying tax_data) = 0 then None
          else Some \<lparr>r_description = ''```\<newline>'' @ table_header @ separator @
                 concat (map row_of (take 25 (sorted_outstanding tax_data))) @
                 (if 25 < length (sorted_outstanding tax_data)
                  then overflow_line (length (sorted_outstanding tax_data)) else []) @
                 separator @
                 (''TOTAL                                         '' @ rjust 13 formatted @
                  ''M\<newline>'') @ ''```'',
               r_fields =
                 (if 3 \<le> length (sorted_outstanding tax_data)
                  then [\<lparr>field_name = [CHR 0xF0, CHR 0x9F, CHR 0x93, CHR 0x8A] @ '' Summary'',
                          field_value = ''**'' @ str_nat (length (sorted_outstanding tax_data)) @
                            ''** users owe taxes\<newline>**'' @
                            formatted @ '' M ISK** total outstanding'',
                          field_inline = False\<rparr>,
                        top_debtors_field (join_lines
                          (map (\<lambda>p. debtor_line (fst p + 1) (snd p))
                            (enumerate 0 (take 3 (sorted_outstanding tax_data)))))]
                  else [\<lparr>field_name = [CHR 0xF0, CHR 0x9F, CHR 0x93, CHR 0x8A] @ '' Summary'',
                          field_value = ''**'' @ str_nat (length (sorted_outstanding tax_data)) @
                            ''** users owe taxes\<newline>**'' @
                            formatted @ '' M ISK** total outstanding'',
                          field_inline = False\<rparr>]),
               r_total_users = length (sorted_outstanding tax_data),
               r_total_outstanding = tot\<rparr>) =
         Some (expected_report tax_data tot formatted)"
proof -
  have ne: "length (filter qualifying tax_data) \<noteq> 0"
    using assms by (simp add: length_sorted_outstanding)
  show ?thesis
    unfolding description_eq expected_report_def Let_def top_debtors_field_def overflow_line_def
    using ne by simp
qed

text \<open>
  When \<open>build_report\<close> returns a report, it is the expected one for the sum of the
  balances of the sorted list and its text, every balance of the input is a number, some
  record qualifies and the first 25 records of the sorted list have a row.
\<close>

lemma build_report_Some_D:
  assumes "build_report en tax_data = Inr (Some rep)"
  shows "\<exists>formatted. format_total (r_total_outstanding rep) = Inr formatted \<and>
           rep = expected_report tax_data (r_total_outstanding rep) formatted"
    and "\<forall>d \<in> set tax_data. numeric_balance d"
    and "filter qualifying tax_data \<noteq> []"
    and "\<forall>d \<in> set (take 25 (sorted_outstanding tax_data)). \<exists>r. render_row d = Inr r"
    and "sum_balances en (sorted_outstanding tax_data) = Inr (r_total_outstanding rep)"
proof -
  let ?q = "filter qualifying tax_data"
  let ?s = "sorted_outstanding tax_data"
  obtain q where fq: "filter_outstanding tax_data = Inr q"
  proof (cases "filter_outstanding tax_data")
    case (Inl e)
    then have "build_report en tax_data = Inl e" by (simp add: build_report_def)
    then show ?thesis using assms by simp
  next
    case (Inr q)
    then show ?thesis by (rule that)
  qed
  from filter_outstanding_Inr_D [OF fq] have q: "q = ?q"
    and num: "\<forall>d \<in> set tax_data. numeric_balance d" by simp_all
  have ne: "length ?q \<noteq> 0"
  proof
    assume "length ?q = 0"
    then have "build_report en tax_data = Inr None"
      using fq q by (simp add: build_report_def)
    then show False using assms by simp
  qed
  have sq: "sort_by_balance ?q = Inr ?s"
    unfolding sorted_outstanding_def
    by (rule sort_by_balance_numeric) (use num in auto)
  obtain tot where sums: "sum_balances en ?s = Inr tot"
  proof (cases "sum_balances en ?s")
    case (Inl e)
    then have "build_report en tax_data = Inl e"
      using fq q ne sq by (simp add: build_report_def)
    then show ?thesis using assms by simp
  next
    case (Inr tot)
    then show ?thesis by (rule that)
  qed
  obtain rows where rows: "map_exn render_row (take 25 ?s) = Inr rows"
  proof (cases "map_exn render_row (take 25 ?s)")
    case (Inl e)
    then have "build_report en tax_data = Inl e"
      using fq q ne sq sums by (simp add: build_report_def)
    then show ?thesis using assms by simp
  next
    case (Inr rows)
    then show ?thesis by (rule that)
  qed
  obtain formatted where fmt: "format_total tot = Inr formatted"
  proof (cases "format_total tot")
    case (Inl e)
    then have "total_line tot = Inl e" by (simp add: total_line_def)
    then have "build_report en tax_data = Inl e"
      using fq q ne sq sums rows by (simp add: build_report_def)
    then show ?thesis using assms by simp
  next
    case (Inr formatted)
    then show ?thesis by (rule that)
  qed
  from render_rows_Inr_D [OF rows] have rows_eq: "rows = map row_of (take 25 ?s)"
    and rendered: "\<forall>d \<in> set (take 25 ?s). \<exists>r. render_row d = Inr r" by simp_all
  have "set (take 3 ?s) \<subseteq> set (take 25 ?s)"
    by (rule set_take_subset_set_take) simp
  then have tops: "map_exn top_line (enumerate 0 (take 3 ?s)) =
      Inr (map (\<lambda>p. debtor_line (fst p + 1) (snd p)) (enumerate 0 (take 3 ?s)))"
    using rendered by (intro top_lines_rendered) blast
  have ne_s: "length ?s \<noteq> 0" using ne by (simp add: length_sorted_outstanding)
  have "build_report en tax_data = Inr (Some (expected_report tax_data tot formatted))"
    unfolding build_report_steps [OF fq [unfolded q] sq sums rows fmt tops] rows_eq
    using expected_report_steps [OF ne_s, of formatted tot] by (simp only:)
  then have rep: "rep = expected_report tax_data tot formatted" using assms by simp
  then have tot: "r_total_outstanding rep = tot" by (simp add: expected_report_def Let_def)
  show "\<exists>formatted. format_total (r_total_outstanding rep) = Inr formatted \<and>
           rep = expected_report tax_data (r_total_outstanding rep) formatted"
    unfolding tot using fmt rep by blast
  show "\<forall>d \<in> set tax_data. numeric_balance d" by (rule num)
  show "?q \<noteq> []" using ne by simp
  show "\<forall>d \<in> set (take 25 ?s). \<exists>r. render_row d = Inr r" by (rule rendered)
  show "sum_balances en ?s = Inr (r_total_outstanding rep)" using sums tot by simp
qed

text \<open>
  Records that can be rendered, one of them qualifying, and a sum that has a text: the
  report is built.
\<close>

lemma build_report_renderable:
  assumes typed: "\<And>d. d \<in> set tax_data \<Longrightarrow> renderable d"
    and some: "filter qualifying tax_data \<noteq> []"
    and sums: "sum_balances en (sorted_outstanding tax_data) = Inr tot"
    and fmt: "format_total tot = Inr formatted"
  shows "build_report en tax_data = Inr (Some (expected_report tax_data tot formatted))"
proof -
  let ?q = "filter qualifying tax_data"
  let ?s = "sorted_outstanding tax_data"
  have num: "\<And>d. d \<in> set tax_data \<Longrightarrow> numeric_balance d"
    using typed by (simp add: renderable_def typed_record_numeric)
  have fq: "filter_outstanding tax_data = Inr ?q"
    using num by (rule filter_outstanding_numeric)
  have sq: "sort_by_balance ?q = Inr ?s"
    unfolding sorted_outstanding_def
    by (rule sort_by_balance_numeric) (use num in auto)
  have in_s: "\<And>d. d \<in> set ?s \<Longrightarrow> renderable d"
    using typed by (simp add: set_sorted_outstanding)
  have rows: "map_exn render_row (take 25 ?s) = Inr (map row_of (take 25 ?s))"
    by (rule map_exn_Inr) (auto dest!: in_set_takeD in_s simp: render_row_renderable)
  have tops: "map_exn top_line (enumerate 0 (take 3 ?s)) =
      Inr (map (\<lambda>p. debtor_line (fst p + 1) (snd p)) (enumerate 0 (take 3 ?s)))"
    by (rule top_lines_rendered) (auto dest!: in_set_takeD in_s simp: render_row_renderable)
  have ne_s: "length ?s \<noteq> 0" using some by (simp add: length_sorted_outstanding)
  show ?thesis
    unfolding build_report_steps [OF fq sq sums rows fmt tops]
    using expected_report_steps [OF ne_s, of formatted tot] by (simp only:)
qed

subsection \<open>The order of the report\<close>

lemma sorted_outstanding_descending:
  "sorted_wrt (\<lambda>a b. balance_num b \<le> balance_num a) (sorted_outstanding tax_data)"
  unfolding sorted_outstanding_def by (rule keyed_sort_descending)

lemma sorted_outstanding_ties:
  "filter (\<lambda>d. balance_num d = k) (sorted_outstanding tax_data) =
   filter (\<lambda>d. balance_num d = k) (filter qualifying tax_data)"
  unfolding sorted_outstanding_def by (rule keyed_sort_ties)

lemma sorted_outstanding_nth_mono:
  assumes "i \<le> j" and "j < length (sorted_outstanding tax_data)"
  shows "balance_num (sorted_outstanding tax_data ! j) \<le>
         balance_num (sorted_outstanding tax_data ! i)"
proof (cases "i = j")
  case True
  then show ?thesis by simp
next
  case False
  then have "i < j" using assms(1) by simp
  with sorted_outstanding_descending [of tax_data] assms(2) show ?thesis
    by (simp add: sorted_wrt_iff_nth_less)
qed

lemma take_3_nth:
  assumes "3 \<le> length xs"
  shows "take 3 xs = [xs ! 0, xs ! 1, xs ! 2]"
proof -
  obtain a xs1 where 1: "xs = a # xs1" using assms by (cases xs) auto
  obtain b xs2 where 2: "xs1 = b # xs2" using assms 1 by (cases xs1) auto
  obtain c xs3 where 3: "xs2 = c # xs3" using assms 1 2 by (cases xs2) auto
  show ?thesis by (simp add: 1 2 3)
qed

lemma top_three_lines:
  "map (\<lambda>p. debtor_line (fst p + 1) (snd p)) (enumerate 0 [a, b, c]) =
   [debtor_line 1 a, debtor_line 2 b, debtor_line 3 c]"
  by (simp add: enumerate_simps numeral_2_eq_2 numeral_3_eq_3)

lemma drop_3_below:
  assumes "d \<in> set (drop 3 (sorted_outstanding tax_data))"
  shows "balance_num d \<le> balance_num (sorted_outstanding tax_data ! 2)"
proof -
  from assms obtain i where i: "i < length (drop 3 (sorted_outstanding tax_data))"
    and d: "d = drop 3 (sorted_outstanding tax_data) ! i"
    by (auto simp: in_set_conv_nth)
  have "d = sorted_outstanding tax_data ! (3 + i)" using d i by simp
  moreover have "3 + i < length (sorted_outstanding tax_data)" using i by simp
  ultimately show ?thesis
    using sorted_outstanding_nth_mono [of 2 "3 + i" tax_data] by simp
qed

subsection \<open>The total of the report\<close>




text \<open>What \<open>build_report\<close> needs to return a report, in one statement.\<close>

lemma build_report_exists:
  assumes "list_all renderable tax_data" and "list_ex qualifying tax_data"
    and "sum_balances en (sorted_outstanding tax_data) = Inr tot"
    and "format_total tot = Inr formatted"
  shows "build_report en tax_data = Inr (Some (expected_report tax_data tot formatted))"
proof (rule build_report_renderable [OF _ _ assms(3,4)])
  show "renderable d" if "d \<in> set tax_data" for d
    using assms(1) that by (simp add: list_all_iff)
  show "filter qualifying tax_data \<noteq> []"
    using assms(2) by (simp add: list_ex_iff filter_empty_conv)
qed


lemma expected_report_fields:
  "r_fields (expected_report tax_data tot formatted) =
     (if 3 \<le> length (filter qualifying tax_data) then
        [\<lparr>field_name = [CHR 0xF0, CHR 0x9F, CHR 0x93, CHR 0x8A] @ '' Summary'',
          field_value = ''**'' @ str_nat (length (filter qualifying tax_data)) @
            ''** users owe taxes\<newline>**'' @ formatted @ '' M ISK** total outstanding'',
          field_inline = False\<rparr>,
         \<lparr>field_name = [CHR 0xF0, CHR 0x9F, CHR 0x94, CHR 0xA5] @ '' Top Debtors'',
          field_value =
            debtor_line 1 (sorted_outstanding tax_data ! 0) @ ''\<newline>'' @
            debtor_line 2 (sorted_outstanding tax_data ! 1) @ ''\<newline>'' @
            debtor_line 3 (sorted_outstanding tax_data ! 2),
          field_inline = False\<rparr>]
      else
        [\<lparr>field_name = [CHR 0xF0, CHR 0x9F, CHR 0x93, CHR 0x8A] @ '' Summary'',
          field_value = ''**'' @ str_nat (length (filter qualifying tax_data)) @
            ''** users owe taxes\<newline>**'' @ formatted @ '' M ISK** total outstanding'',
          field_inline = False\<rparr>])"
proof (cases "3 \<le> length (filter qualifying tax_data)")
  case True
  then have len: "3 \<le> length (sorted_outstanding tax_data)"
    by (simp add: length_sorted_outstanding)
  have "join_lines (map (\<lambda>p. debtor_line (fst p + 1) (snd p))
          (enumerate 0 (take 3 (sorted_outstanding tax_data)))) =
        debtor_line 1 (sorted_outstanding tax_data ! 0) @ ''\<newline>'' @
        debtor_line 2 (sorted_outstanding tax_data ! 1) @ ''\<newline>'' @
        debtor_line 3 (sorted_outstanding tax_data ! 2)"
    by (simp only: take_3_nth [OF len] top_three_lines join_lines.simps)
  then show ?thesis
    using True
    by (simp only: expected_report_def Let_def report.select_convs
        length_sorted_outstanding if_True)
next
  case False
  then show ?thesis
    by (simp only: expected_report_def Let_def report.select_convs
        length_sorted_outstanding if_False)
qed

subsection \<open>The example of the specification\<close>

text \<open>
  Two records, 125.5 and 89.23, a webhook and no channel: one request, the total
  \<open>214.73M\<close>, a summary of 2 users, no top debtors, and \<open>True\<close> for the status 204.
\<close>

lemma specification_example:
  "send_corp_tax_summary env_no_bot example_url example_two PyNone =
     (Inr (Some True),
      [HttpPost example_url
         \<lparr>p_username = ''MiningTaxes Corp Summary'',
          p_embeds = [make_embed env_no_bot report_two]\<rparr>,
       Log LogInfo ''Successfully sent corp tax summary: 2 users, 214.73M ISK''])"
  and "build_report env_no_bot example_two = Inr (Some report_two)"
  by code_simp+

text \<open>
  An \<open>int\<close> is formatted as the \<open>float\<close> nearest to it: beyond \<open>2 ^ 53\<close> the digits
  are those of the \<open>float\<close>, and an \<open>int\<close> beyond the doubles raises. Two balances of
  \<open>2 ^ 1023\<close> are doubles each, but their sum is none and has no text.
\<close>

lemma int_balance_rounded:
  "format_2f (PyInt (2 ^ 53 + 1)) = Inr ''9,007,199,254,740,992.00''"
  by code_simp

lemma int_balance_beyond_the_doubles:
  "format_2f (PyInt (2 ^ 1024 - 2 ^ 970)) = Inl OverflowError"
  by code_simp

lemma total_beyond_the_doubles:
  "format_total (SumInt (2 ^ 1023 + 2 ^ 1023)) = Inl OverflowError"
  by code_simp

section \<open>The claims\<close>





text \<open>
  C4. When the records can be rendered, one of them qualifies and the sum has a text,
  the report is built. In every report that is built from at least three qualifying
  records, the second field is the top debtors: the first three records of the sorted
  list, numbered 1 to 3, each with its name and formatted balance; their balances
  descend and no other qualifying record has a higher one. With fewer than three
  qualifying records the summary is the only field.
\<close>

theorem top_debtors_block:
  "(list_all renderable tax_data \<and> list_ex qualifying tax_data \<and>
      sum_balances en (sorted_outstanding tax_data) = Inr tot \<and>
      format_total tot = Inr formatted \<longrightarrow>
      (\<exists>rep. build_report en tax_data = Inr (Some rep)))
   \<and> (\<forall>rep. build_report en tax_data = Inr (Some rep) \<longrightarrow>
        (\<exists>total_text. format_total (r_total_outstanding rep) = Inr total_text \<and>
          (if 3 \<le> length (filter qualifying tax_data) then
             r_fields rep =
               [\<lparr>field_name = [CHR 0xF0, CHR 0x9F, CHR 0x93, CHR 0x8A] @ '' Summary'',
                 field_value = ''**'' @ str_nat (length (filter qualifying tax_data)) @
                   ''** users owe taxes\<newline>**'' @ total_text @
                   '' M ISK** total outstanding'',
                 field_inline = False\<rparr>,
                \<lparr>field_name = [CHR 0xF0, CHR 0x9F, CHR 0x94, CHR 0xA5] @ '' Top Debtors'',
                 field_value =
                   debtor_line 1 (sorted_outstanding tax_data ! 0) @ ''\<newline>'' @
                   debtor_line 2 (sorted_outstanding tax_data ! 1) @ ''\<newline>'' @
                   debtor_line 3 (sorted_outstanding tax_data ! 2),
                 field_inline = False\<rparr>]
             \<and> balance_num (sorted_outstanding tax_data ! 1) \<le>
                 balance_num (sorted_outstanding tax_data ! 0)
             \<and> balance_num (sorted_outstanding tax_data ! 2) \<le>
                 balance_num (sorted_outstanding tax_data ! 1)
             \<and> (\<forall>d \<in> set (drop 3 (sorted_outstanding tax_data)).
                   balance_num d \<le> balance_num (sorted_outstanding tax_data ! 2))
             \<and> mset (sorted_outstanding tax_data) = mset (filter qualifying tax_data)
           else
             r_fields rep =
               [\<lparr>field_name = [CHR 0xF0, CHR 0x9F, CHR 0x93, CHR 0x8A] @ '' Summary'',
                 field_value = ''**'' @ str_nat (length (filter qualifying tax_data)) @
                   ''** users owe taxes\<newline>**'' @ total_text @
                   '' M ISK** total outstanding'',
                 field_inline = False\<rparr>])))"
proof (intro conjI impI allI)
  assume "list_all renderable tax_data \<and> list_ex qualifying tax_data \<and>
      sum_balances en (sorted_outstanding tax_data) = Inr tot \<and>
      format_total tot = Inr formatted"
  then have "build_report en tax_data = Inr (Some (expected_report tax_data tot formatted))"
    by (intro build_report_exists) simp_all
  then show "\<exists>rep. build_report en tax_data = Inr (Some rep)" by blast
next
  fix rep assume h: "build_report en tax_data = Inr (Some rep)"
  from build_report_Some_D(1) [OF h] obtain total_text
    where f: "format_total (r_total_outstanding rep) = Inr total_text"
      and rep: "rep = expected_report tax_data (r_total_outstanding rep) total_text"
    by blast
  have fields: "r_fields rep =
      r_fields (expected_report tax_data (r_total_outstanding rep) total_text)"
    using rep by simp
  have block: "if 3 \<le> length (filter qualifying tax_data) then
             r_fields rep =
               [\<lparr>field_name = [CHR 0xF0, CHR 0x9F, CHR 0x93, CHR 0x8A] @ '' Summary'',
                 field_value = ''**'' @ str_nat (length (filter qualifying tax_data)) @
                   ''** users owe taxes\<newline>**'' @ total_text @
                   '' M ISK** total outstanding'',
                 field_inline = False\<rparr>,
                \<lparr>field_name = [CHR 0xF0, CHR 0x9F, CHR 0x94, CHR 0xA5] @ '' Top Debtors'',
                 field_value =
                   debtor_line 1 (sorted_outstanding tax_data ! 0) @ ''\<newline>'' @
                   debtor_line 2 (sorted_outstanding tax_data ! 1) @ ''\<newline>'' @
                   debtor_line 3 (sorted_outstanding tax_data ! 2),
                 field_inline = False\<rparr>]
             \<and> balance_num (sorted_outstanding tax_data ! 1) \<le>
                 balance_num (sorted_outstanding tax_data ! 0)
             \<and> balance_num (sorted_outstanding tax_data ! 2) \<le>
                 balance_num (sorted_outstanding tax_data ! 1)
             \<and> (\<forall>d \<in> set (drop 3 (sorted_outstanding tax_data)).
                   balance_num d \<le> balance_num (sorted_outstanding tax_data ! 2))
             \<and> mset (sorted_outstanding tax_data) = mset (filter qualifying tax_data)
           else
             r_fields rep =
               [\<lparr>field_name = [CHR 0xF0, CHR 0x9F, CHR 0x93, CHR 0x8A] @ '' Summary'',
                 field_value = ''**'' @ str_nat (length (filter qualifying tax_data)) @
                   ''** users owe taxes\<newline>**'' @ total_text @
                   '' M ISK** total outstanding'',
                 field_inline = False\<rparr>]"
  proof (cases "3 \<le> length (filter qualifying tax_data)")
    case True
    then have len: "3 \<le> length (sorted_outstanding tax_data)"
      by (simp add: length_sorted_outstanding)
    have "balance_num (sorted_outstanding tax_data ! 1) \<le>
          balance_num (sorted_outstanding tax_data ! 0)"
      using sorted_outstanding_nth_mono [of 0 1 tax_data] len by simp
    moreover have "balance_num (sorted_outstanding tax_data ! 2) \<le>
          balance_num (sorted_outstanding tax_data ! 1)"
      using sorted_outstanding_nth_mono [of 1 2 tax_data] len by simp
    moreover have "\<forall>d \<in> set (drop 3 (sorted_outstanding tax_data)).
          balance_num d \<le> balance_num (sorted_outstanding tax_data ! 2)"
      using drop_3_below [of _ tax_data] by blast
    ultimately show ?thesis
      using True sorted_outstanding_mset [of tax_data]
      by (simp only: fields expected_report_fields if_True simp_thms)
  next
    case False
    then show ?thesis
      by (simp only: fields expected_report_fields if_False)
  qed
  from f block
  show "\<exists>total_text. format_total (r_total_outstanding rep) = Inr total_text \<and>
          (if 3 \<le> length (filter qualifying tax_data) then
             r_fields rep =
               [\<lparr>field_name = [CHR 0xF0, CHR 0x9F, CHR 0x93, CHR 0x8A] @ '' Summary'',
                 field_value = ''**'' @ str_nat (length (filter qualifying tax_data)) @
                   ''** users owe taxes\<newline>**'' @ total_text @
                   '' M ISK** total outstanding'',
                 field_inline = False\<rparr>,
                \<lparr>field_name = [CHR 0xF0, CHR 0x9F, CHR 0x94, CHR 0xA5] @ '' Top Debtors'',
                 field_value =
                   debtor_line 1 (sorted_outstanding tax_data ! 0) @ ''\<newline>'' @
                   debtor_line 2 (sorted_outstanding tax_data ! 1) @ ''\<newline>'' @
                   debtor_line 3 (sorted_outstanding tax_data ! 2),
                 field_inline = False\<rparr>]
             \<and> balance_num (sorted_outstanding tax_data ! 1) \<le>
                 balance_num (sorted_outstanding tax_data ! 0)
             \<and> balance_num (sorted_outstanding tax_data ! 2) \<le>
                 balance_num (sorted_outstanding tax_data ! 1)
             \<and> (\<forall>d \<in> set (drop 3 (sorted_outstanding tax_data)).
                   balance_num d \<le> balance_num (sorted_outstanding tax_data ! 2))
             \<and> mset (sorted_outstanding tax_data) = mset (filter qualifying tax_data)
           else
             r_fields rep =
               [\<lparr>field_name = [CHR 0xF0, CHR 0x9F, CHR 0x93, CHR 0x8A] @ '' Summary'',
                 field_value = ''**'' @ str_nat (length (filter qualifying tax_data)) @
                   ''** users owe taxes\<newline>**'' @ total_text @
                   '' M ISK** total outstanding'',
                 field_inline = False\<rparr>])"
    by (intro exI [of _ total_text] conjI)
qed

theorem top_debtors_block_witness:
  "list_all renderable example_ties \<and> list_ex qualifying example_ties
   \<and> (case build_report env_bot example_ties of
         Inr (Some rep) \<Rightarrow> r_fields rep | _ \<Rightarrow> []) =
     [\<lparr>field_name = [CHR 0xF0, CHR 0x9F, CHR 0x93, CHR 0x8A] @ '' Summary'',
       field_value = ''**3** users owe taxes\<newline>**17.00 M ISK** total outstanding'',
       field_inline = False\<rparr>,
      \<lparr>field_name = [CHR 0xF0, CHR 0x9F, CHR 0x94, CHR 0xA5] @ '' Top Debtors'',
       field_value =
         ''1. **third** - 7.00M ISK\<newline>'' @
         ''2. **first** - 5.00M ISK\<newline>'' @
         ''3. **second** - 5.00M ISK'',
       field_inline = False\<rparr>]
   \<and> debtor_line 1 (sorted_outstanding example_ties ! 0) @ ''\<newline>'' @
       debtor_line 2 (sorted_outstanding example_ties ! 1) @ ''\<newline>'' @
       debtor_line 3 (sorted_outstanding example_ties ! 2) =
         ''1. **third** - 7.00M ISK\<newline>'' @
         ''2. **first** - 5.00M ISK\<newline>'' @
         ''3. **second** - 5.00M ISK''
   \<and> list_all renderable example_two \<and> list_ex qualifying example_two
   \<and> (case build_report env_bot example_two of
         Inr (Some rep) \<Rightarrow> r_fields rep | _ \<Rightarrow> []) =
     [\<lparr>field_name = [CHR 0xF0, CHR 0x9F, CHR 0x93, CHR 0x8A] @ '' Summary'',
       field_value = ''**2** users owe taxes\<newline>**214.73 M ISK** total outstanding'',
       field_inline = False\<rparr>]"
proof -
  have r3: "list_all renderable example_ties" by code_simp
  have q3: "list_ex qualifying example_ties" by code_simp
  have n3: "length (filter qualifying example_ties) = 3" by code_simp
  have s3: "sum_balances env_bot (sorted_outstanding example_ties) = Inr (SumInt 17)"
    by code_simp
  have f3: "format_total (SumInt 17) = Inr ''17.00''" by code_simp
  note t3 = top_debtors_block
    [where tax_data = example_ties and en = env_bot and tot = "SumInt 17"
       and formatted = "''17.00''"]
  from t3 r3 q3 s3 f3 obtain rep3
    where h3: "build_report env_bot example_ties = Inr (Some rep3)" by blast
  have c3: "(case build_report env_bot example_ties of
         Inr (Some rep) \<Rightarrow> r_fields rep | _ \<Rightarrow> []) =
     [\<lparr>field_name = [CHR 0xF0, CHR 0x9F, CHR 0x93, CHR 0x8A] @ '' Summary'',
       field_value = ''**3** users owe taxes\<newline>**17.00 M ISK** total outstanding'',
       field_inline = False\<rparr>,
      \<lparr>field_name = [CHR 0xF0, CHR 0x9F, CHR 0x94, CHR 0xA5] @ '' Top Debtors'',
       field_value =
         ''1. **third** - 7.00M ISK\<newline>'' @
         ''2. **first** - 5.00M ISK\<newline>'' @
         ''3. **second** - 5.00M ISK'',
       field_inline = False\<rparr>]"
    by code_simp
  have three: "3 \<le> length (filter qualifying example_ties)" using n3 by simp
  from t3 h3 obtain text3 where
    "if 3 \<le> length (filter qualifying example_ties) then
       r_fields rep3 =
               [\<lparr>field_name = [CHR 0xF0, CHR 0x9F, CHR 0x93, CHR 0x8A] @ '' Summary'',
                 field_value = ''**'' @ str_nat (length (filter qualifying example_ties)) @
                   ''** users owe taxes\<newline>**'' @ text3 @
                   '' M ISK** total outstanding'',
                 field_inline = False\<rparr>,
                \<lparr>field_name = [CHR 0xF0, CHR 0x9F, CHR 0x94, CHR 0xA5] @ '' Top Debtors'',
                 field_value =
                   debtor_line 1 (sorted_outstanding example_ties ! 0) @ ''\<newline>'' @
                   debtor_line 2 (sorted_outstanding example_ties ! 1) @ ''\<newline>'' @
                   debtor_line 3 (sorted_outstanding example_ties ! 2),
                 field_inline = False\<rparr>]
             \<and> balance_num (sorted_outstanding example_ties ! 1) \<le>
                 balance_num (sorted_outstanding example_ties ! 0)
             \<and> balance_num (sorted_outstanding example_ties ! 2) \<le>
                 balance_num (sorted_outstanding example_ties ! 1)
             \<and> (\<forall>d \<in> set (drop 3 (sorted_outstanding example_ties)).
                   balance_num d \<le> balance_num (sorted_outstanding example_ties ! 2))
             \<and> mset (sorted_outstanding example_ties) = mset (filter qualifying example_ties)
           else
             r_fields rep3 =
               [\<lparr>field_name = [CHR 0xF0, CHR 0x9F, CHR 0x93, CHR 0x8A] @ '' Summary'',
                 field_value = ''**'' @ str_nat (length (filter qualifying example_ties)) @
                   ''** users owe taxes\<newline>**'' @ text3 @
                   '' M ISK** total outstanding'',
                 field_inline = False\<rparr>]"
    by blast
  then have "field_value (r_fields rep3 ! 1) =
       debtor_line 1 (sorted_outstanding example_ties ! 0) @ ''\<newline>'' @
       debtor_line 2 (sorted_outstanding example_ties ! 1) @ ''\<newline>'' @
       debtor_line 3 (sorted_outstanding example_ties ! 2)"
    using three by (simp only: if_True) simp
  moreover have "field_value (r_fields rep3 ! 1) =
         ''1. **third** - 7.00M ISK\<newline>'' @
         ''2. **first** - 5.00M ISK\<newline>'' @
         ''3. **second** - 5.00M ISK''"
    using c3 h3 by simp
  ultimately have lines: "debtor_line 1 (sorted_outstanding example_ties ! 0) @ ''\<newline>'' @
       debtor_line 2 (sorted_outstanding example_ties ! 1) @ ''\<newline>'' @
       debtor_line 3 (sorted_outstanding example_ties ! 2) =
         ''1. **third** - 7.00M ISK\<newline>'' @
         ''2. **first** - 5.00M ISK\<newline>'' @
         ''3. **second** - 5.00M ISK''"
    by (simp only:)
  have r2: "list_all renderable example_two" by code_simp
  have q2: "list_ex qualifying example_two" by code_simp
  have c2: "(case build_report env_bot example_two of
         Inr (Some rep) \<Rightarrow> r_fields rep | _ \<Rightarrow> []) =
     [\<lparr>field_name = [CHR 0xF0, CHR 0x9F, CHR 0x93, CHR 0x8A] @ '' Summary'',
       field_value = ''**2** users owe taxes\<newline>**214.73 M ISK** total outstanding'',
       field_inline = False\<rparr>]"
    by code_simp
  show ?thesis using r3 q3 c3 lines r2 q2 c2 by (intro conjI)
qed

text \<open>
  C5, as the specification states it, asks for a strictly descending order. Two
  qualifying records with the same balance stay next to each other, in input order, so
  the order is not strict: here \<open>first\<close> and \<open>second\<close> both owe 5.
\<close>

theorem strictly_descending_counterexample:
  "(case filter_outstanding example_ties of
      Inl e \<Rightarrow> []
    | Inr unsorted \<Rightarrow>
        (case sort_by_balance unsorted of
           Inl e \<Rightarrow> []
         | Inr outstanding \<Rightarrow> map (\<lambda>d. (username_of d, balance_num d)) outstanding)) =
   [(''third'', 7), (''first'', 5), (''second'', 5)]
   \<and> \<not> sorted_wrt (\<lambda>a b. snd b < snd a)
         [(''third'', 7 :: rat), (''first'', 5), (''second'', 5)]"
  by code_simp

text \<open>
  C5, amended. When every balance of the input is a number (or missing), the filter and
  the sort succeed; the sorted list holds the qualifying records, each as often as the
  input does, in descending order of balance with ties allowed, and the records of equal
  balance are in the order they had in the input.
\<close>

theorem sort_descending_stable:
  assumes "\<forall>d \<in> set tax_data. numeric_balance d"
  shows "filter_outstanding tax_data = Inr (filter qualifying tax_data)
       \<and> sort_by_balance (filter qualifying tax_data) = Inr (sorted_outstanding tax_data)
       \<and> sorted_wrt (\<lambda>a b. balance_num b \<le> balance_num a) (sorted_outstanding tax_data)
       \<and> mset (sorted_outstanding tax_data) = mset (filter qualifying tax_data)
       \<and> (\<forall>k. filter (\<lambda>d. balance_num d = k) (sorted_outstanding tax_data) =
              filter (\<lambda>d. balance_num d = k) (filter qualifying tax_data))"
proof (intro conjI allI)
  show "filter_outstanding tax_data = Inr (filter qualifying tax_data)"
    by (rule filter_outstanding_numeric) (use assms in simp)
  show "sort_by_balance (filter qualifying tax_data) = Inr (sorted_outstanding tax_data)"
    unfolding sorted_outstanding_def
    by (rule sort_by_balance_numeric) (use assms in simp)
  show "sorted_wrt (\<lambda>a b. balance_num b \<le> balance_num a) (sorted_outstanding tax_data)"
    by (rule sorted_outstanding_descending)
  show "mset (sorted_outstanding tax_data) = mset (filter qualifying tax_data)"
    by (rule sorted_outstanding_mset)
  show "filter (\<lambda>d. balance_num d = k) (sorted_outstanding tax_data) =
        filter (\<lambda>d. balance_num d = k) (filter qualifying tax_data)" for k
    by (rule sorted_outstanding_ties)
qed

theorem sort_descending_stable_witness:
  "filter_outstanding example_ties = Inr (filter qualifying example_ties)
   \<and> sort_by_balance (filter qualifying example_ties) = Inr (sorted_outstanding example_ties)
   \<and> sorted_wrt (\<lambda>a b. balance_num b \<le> balance_num a) (sorted_outstanding example_ties)
   \<and> mset (sorted_outstanding example_ties) = mset (filter qualifying example_ties)
   \<and> map username_of (filter (\<lambda>d. balance_num d = 5) (sorted_outstanding example_ties)) =
       [''first'', ''second'']
   \<and> map username_of (filter (\<lambda>d. balance_num d = 5) (filter qualifying example_ties)) =
       [''first'', ''second'']"
proof -
  have numeric: "\<forall>d \<in> set example_ties. numeric_balance d" by code_simp
  have names: "map username_of (filter (\<lambda>d. balance_num d = 5) (filter qualifying example_ties)) =
       [''first'', ''second'']" by code_simp
  from sort_descending_stable [OF numeric] names show ?thesis by simp
qed

subsection \<open>The dispatch\<close>

lemma webhook_block_truthy:
  assumes "truthy webhook_url"
  shows "fst (webhook_block en webhook_url rep) \<noteq> Inr None"
    and "filter is_http_post (snd (webhook_block en webhook_url rep)) =
         [HttpPost webhook_url
            \<lparr>p_username = ''MiningTaxes Corp Summary'', p_embeds = [make_embed en rep]\<rparr>]"
    and "filter is_bot_send (snd (webhook_block en webhook_url rep)) = []"
  using assms by (auto simp: webhook_block_def Let_def split: sum.splits)

lemma bot_block_no_post: "filter is_http_post (snd (bot_block en channel_id rep)) = []"
  by (auto simp: bot_block_def split: option.splits sum.splits)

lemma bot_block_import_error:
  "import_bot en = Some e \<Longrightarrow> bot_block en channel_id rep = (Inl e, [])"
  by (simp add: bot_block_def)

lemma bot_block_imported:
  assumes "import_bot en = None" and "py_int en channel_id = Inr i"
  shows "filter is_bot_send (snd (bot_block en channel_id rep)) =
         [BotSend i (make_embed en rep)]"
  using assms by (auto simp: bot_block_def split: option.splits sum.splits)

lemma format_total_raises: "format_total tot \<noteq> Inl ImportError"
  by (cases tot) (simp_all split: option.splits)

lemma totals_text_raises: "totals_text rep \<noteq> Inl ImportError"
  using format_total_raises [of "r_total_outstanding rep"]
  by (cases "format_total (r_total_outstanding rep)") (simp_all add: totals_text_def)

lemma bot_block_raises:
  assumes "import_bot en = None" and "send_message en \<noteq> Some ImportError"
  shows "fst (bot_block en channel_id rep) \<noteq> Inl ImportError"
  using assms totals_text_raises [of rep]
  by (auto simp: bot_block_def py_int_def split: option.splits sum.splits pyval.splits)

lemma dispatch_falsy_channel:
  "\<not> truthy channel_id \<Longrightarrow>
   dispatch en webhook_url channel_id rep = webhook_block en webhook_url rep"
  by (simp add: dispatch_def)

lemma dispatch_returns:
  assumes "truthy webhook_url \<or> truthy channel_id"
  shows "fst (dispatch en webhook_url channel_id rep) \<noteq> Inr None"
proof (cases "truthy channel_id")
  case False
  then show ?thesis
    using assms webhook_block_truthy(1) [of webhook_url en rep]
    by (simp add: dispatch_falsy_channel)
next
  case True
  obtain r evs where b: "bot_block en channel_id rep = (r, evs)" by (cases "bot_block en channel_id rep")
  show ?thesis
  proof (cases r)
    case (Inr u)
    then show ?thesis using True b by (simp add: dispatch_def)
  next
    case (Inl e)
    show ?thesis
    proof (cases "e = ImportError")
      case False
      then show ?thesis using True b Inl by (cases e) (simp_all add: dispatch_def)
    next
      case imp: True
      show ?thesis
      proof (cases "truthy webhook_url")
        case False
        then show ?thesis using True b Inl imp by (simp add: dispatch_def)
      next
        case w: True
        obtain r2 evs2 where wb: "webhook_block en webhook_url rep = (r2, evs2)"
          by (cases "webhook_block en webhook_url rep")
        with webhook_block_truthy(1) [OF w, of en rep] have "r2 \<noteq> Inr None" by simp
        then show ?thesis using True b Inl imp w wb by (simp add: dispatch_def)
      qed
    qed
  qed
qed

lemma try_body_returns:
  assumes "truthy webhook_url \<or> truthy channel_id"
  shows "fst (try_body en webhook_url tax_data channel_id) \<noteq> Inr None"
proof (cases "build_report en tax_data")
  case (Inl e)
  then show ?thesis by (simp add: try_body_def)
next
  case (Inr ro)
  then show ?thesis
    using dispatch_returns [OF assms] by (cases ro) (simp_all add: try_body_def)
qed

lemma send_corp_tax_summary_entered:
  assumes "truthy webhook_url \<or> truthy channel_id" and "tax_data \<noteq> []"
  shows "send_corp_tax_summary en webhook_url tax_data channel_id =
         (case try_body en webhook_url tax_data channel_id of
            (Inl e, evs) \<Rightarrow>
              (Inr (Some False), evs @ [Log LogError ''Error sending corp tax summary: ''])
          | (Inr r, evs) \<Rightarrow> (Inr r, evs))"
  using assms by (auto simp: send_corp_tax_summary_def)

lemma build_report_Nil: "build_report en [] = Inr None"
  by (simp add: build_report_def)

text \<open>
  C7. With both destinations \<open>None\<close>, or with an empty list, the function returns
  \<open>False\<close> at once: nothing is logged and nothing is sent, whatever the records are.
\<close>

theorem no_destination_or_empty_input:
  assumes "(webhook_url = PyNone \<and> channel_id = PyNone) \<or> tax_data = []"
  shows "send_corp_tax_summary en webhook_url tax_data channel_id = (Inr (Some False), [])"
  using assms by (auto simp: send_corp_tax_summary_def)

theorem no_destination_or_empty_input_witness:
  "send_corp_tax_summary env_bot PyNone example_two PyNone = (Inr (Some False), [])
   \<and> send_corp_tax_summary env_bot example_url [] (PyInt 5) = (Inr (Some False), [])"
  using no_destination_or_empty_input [of PyNone PyNone example_two env_bot]
    no_destination_or_empty_input [of example_url "PyInt 5" "[]" env_bot]
  by simp

text \<open>
  C6, as the specification states it, promises \<open>True\<close> for every list with no
  qualifying record. The empty list has none, and the function returns \<open>False\<close> for it.
\<close>

theorem nothing_to_report_counterexample:
  "send_corp_tax_summary env_bot example_url [] PyNone = (Inr (Some False), [])"
  by code_simp

text \<open>
  C6, amended. For a list with no qualifying record nothing is ever sent; and when the
  list is not empty, a destination is given and every balance is a number (or missing),
  the function returns \<open>True\<close> and does nothing else.
\<close>

theorem nothing_to_report:
  assumes "\<forall>d \<in> set tax_data. \<not> qualifying d"
  shows "outbound (snd (send_corp_tax_summary en webhook_url tax_data channel_id)) = []
       \<and> (tax_data \<noteq> [] \<and> (truthy webhook_url \<or> truthy channel_id) \<and>
            (\<forall>d \<in> set tax_data. numeric_balance d) \<longrightarrow>
          send_corp_tax_summary en webhook_url tax_data channel_id = (Inr (Some True), []))"
proof (intro conjI impI)
  have none: "filter qualifying tax_data = []"
    using assms by (simp add: filter_empty_conv)
  have no_report: "build_report en tax_data \<noteq> Inr (Some rep)" for rep
    using build_report_Some_D(3) [of en tax_data rep] none by blast
  show "outbound (snd (send_corp_tax_summary en webhook_url tax_data channel_id)) = []"
  proof (cases "build_report en tax_data")
    case (Inl e)
    then show ?thesis
      by (simp add: send_corp_tax_summary_def try_body_def outbound_def)
  next
    case (Inr ro)
    then have "ro = None" using no_report by (cases ro) simp_all
    then show ?thesis using Inr
      by (simp add: send_corp_tax_summary_def try_body_def outbound_def)
  qed
  assume guard: "tax_data \<noteq> [] \<and> (truthy webhook_url \<or> truthy channel_id) \<and>
            (\<forall>d \<in> set tax_data. numeric_balance d)"
  then have "filter_outstanding tax_data = Inr []"
    using filter_outstanding_numeric [of tax_data] none by simp
  then have "build_report en tax_data = Inr None" by (simp add: build_report_def)
  then show "send_corp_tax_summary en webhook_url tax_data channel_id = (Inr (Some True), [])"
    using guard by (auto simp: send_corp_tax_summary_def try_body_def)
qed

theorem nothing_to_report_witness:
  "outbound (snd (send_corp_tax_summary env_bot example_url example_idle (PyInt 5))) = []
   \<and> send_corp_tax_summary env_bot example_url example_idle (PyInt 5) = (Inr (Some True), [])"
proof -
  have none: "\<forall>d \<in> set example_idle. \<not> qualifying d" by code_simp
  have guard: "example_idle \<noteq> [] \<and> (truthy example_url \<or> truthy (PyInt 5)) \<and>
      (\<forall>d \<in> set example_idle. numeric_balance d)"
  proof (intro conjI)
    show "example_idle \<noteq> []" by (simp add: example_idle_def)
    show "truthy example_url \<or> truthy (PyInt 5)" by simp
    show "\<forall>d \<in> set example_idle. numeric_balance d" by code_simp
  qed
  from nothing_to_report [OF none, of env_bot example_url "PyInt 5"] guard
  show ?thesis by blast
qed

text \<open>
  C10. A falsy \<open>channel_id\<close> (\<open>0\<close>, the empty string) is treated as \<open>None\<close>: the call
  does what it does with no \<open>channel_id\<close>, the bot is never called, whatever is sent is a
  request to \<open>webhook_url\<close>, and with no webhook either the function returns \<open>False\<close>
  at once.
\<close>

theorem falsy_channel_id_is_absent:
  assumes "\<not> truthy channel_id"
  shows "send_corp_tax_summary en webhook_url tax_data channel_id =
           send_corp_tax_summary en webhook_url tax_data PyNone
       \<and> filter is_bot_send
           (snd (send_corp_tax_summary en webhook_url tax_data channel_id)) = []
       \<and> (\<forall>ev \<in> set (outbound
                (snd (send_corp_tax_summary en webhook_url tax_data channel_id))).
             \<exists>p. ev = HttpPost webhook_url p)
       \<and> (\<not> truthy webhook_url \<longrightarrow>
            send_corp_tax_summary en webhook_url tax_data channel_id =
              (Inr (Some False), []))"
proof -
  have "dispatch en webhook_url channel_id rep = dispatch en webhook_url PyNone rep" for rep
    using assms by (simp add: dispatch_falsy_channel)
  then have "try_body en webhook_url tax_data channel_id =
      try_body en webhook_url tax_data PyNone"
    by (simp add: try_body_def cong: sum.case_cong option.case_cong)
  then have same: "send_corp_tax_summary en webhook_url tax_data channel_id =
           send_corp_tax_summary en webhook_url tax_data PyNone"
    using assms by (simp add: send_corp_tax_summary_def)
  have wb: "set (snd (webhook_block en webhook_url rep)) \<subseteq>
      {ev. is_http_post ev \<longrightarrow> (\<exists>p. ev = HttpPost webhook_url p)} \<inter> {ev. \<not> is_bot_send ev}"
    for rep
    by (auto simp: webhook_block_def Let_def split: sum.splits if_splits)
  have evs: "set (snd (send_corp_tax_summary en webhook_url tax_data PyNone)) \<subseteq>
      {ev. is_http_post ev \<longrightarrow> (\<exists>p. ev = HttpPost webhook_url p)} \<inter> {ev. \<not> is_bot_send ev}"
  proof (cases "build_report en tax_data")
    case (Inl e)
    then show ?thesis by (simp add: send_corp_tax_summary_def try_body_def)
  next
    case (Inr ro)
    show ?thesis
    proof (cases ro)
      case None
      then show ?thesis using Inr by (simp add: send_corp_tax_summary_def try_body_def)
    next
      case (Some rep)
      obtain r es where w: "webhook_block en webhook_url rep = (r, es)"
        by (cases "webhook_block en webhook_url rep")
      with wb [of rep] have "set es \<subseteq>
        {ev. is_http_post ev \<longrightarrow> (\<exists>p. ev = HttpPost webhook_url p)} \<inter> {ev. \<not> is_bot_send ev}"
        by simp
      then show ?thesis using Inr Some w
        by (cases r) (auto simp: send_corp_tax_summary_def try_body_def dispatch_def)
    qed
  qed
  have "filter is_bot_send (snd (send_corp_tax_summary en webhook_url tax_data PyNone)) = []"
    using evs by (auto simp: filter_empty_conv)
  moreover have "\<forall>ev \<in> set (outbound
                (snd (send_corp_tax_summary en webhook_url tax_data PyNone))).
             \<exists>p. ev = HttpPost webhook_url p"
    using evs by (auto simp: outbound_def)
  moreover have "\<not> truthy webhook_url \<longrightarrow>
      send_corp_tax_summary en webhook_url tax_data PyNone = (Inr (Some False), [])"
    by (simp add: send_corp_tax_summary_def)
  ultimately show ?thesis using same by simp
qed

theorem falsy_channel_id_is_absent_witness:
  "send_corp_tax_summary env_bot example_url example_two (PyInt 0) =
     send_corp_tax_summary env_bot example_url example_two PyNone
   \<and> filter is_bot_send
       (snd (send_corp_tax_summary env_bot example_url example_two (PyInt 0))) = []
   \<and> length (filter is_http_post
       (snd (send_corp_tax_summary env_bot example_url example_two (PyInt 0)))) = 1
   \<and> send_corp_tax_summary env_bot PyNone example_two (PyStr []) = (Inr (Some False), [])"
proof -
  have posts: "length (filter is_http_post
       (snd (send_corp_tax_summary env_bot example_url example_two (PyInt 0)))) = 1"
    by code_simp
  have zero: "\<not> truthy (PyInt 0)" and empty: "\<not> truthy (PyStr [])" by simp_all
  note a = falsy_channel_id_is_absent [OF zero, of env_bot example_url example_two]
  note b = falsy_channel_id_is_absent [OF empty, of env_bot PyNone example_two]
  from a have a1: "send_corp_tax_summary env_bot example_url example_two (PyInt 0) =
     send_corp_tax_summary env_bot example_url example_two PyNone" by (rule conjunct1)
  from a have a2: "filter is_bot_send
       (snd (send_corp_tax_summary env_bot example_url example_two (PyInt 0))) = []"
    by blast
  have none: "\<not> truthy PyNone" by simp
  from b none have b4: "send_corp_tax_summary env_bot PyNone example_two (PyStr []) =
      (Inr (Some False), [])" by blast
  show ?thesis using a1 a2 posts b4 by (intro conjI)
qed

text \<open>
  C9. No exception leaves the function: every call returns a boolean. When the body of
  the \<^verbatim>\<open>try\<close> raises, during the formatting or the dispatch, the function returns
  \<open>False\<close> and the last thing it does is write the error to the log.
\<close>

theorem never_raises:
  "(\<exists>b. fst (send_corp_tax_summary en webhook_url tax_data channel_id) = Inr (Some b))
   \<and> (\<forall>e. (truthy webhook_url \<or> truthy channel_id) \<and> tax_data \<noteq> [] \<and>
          fst (try_body en webhook_url tax_data channel_id) = Inl e \<longrightarrow>
        send_corp_tax_summary en webhook_url tax_data channel_id =
          (Inr (Some False),
           snd (try_body en webhook_url tax_data channel_id) @
             [Log LogError ''Error sending corp tax summary: '']))"
proof (intro conjI allI impI)
  show "\<exists>b. fst (send_corp_tax_summary en webhook_url tax_data channel_id) = Inr (Some b)"
  proof (cases "(truthy webhook_url \<or> truthy channel_id) \<and> tax_data \<noteq> []")
    case False
    then show ?thesis by (auto simp: send_corp_tax_summary_def)
  next
    case True
    obtain r evs where t: "try_body en webhook_url tax_data channel_id = (r, evs)"
      by (cases "try_body en webhook_url tax_data channel_id")
    have "r \<noteq> Inr None" using try_body_returns [of webhook_url channel_id en tax_data] True t
      by simp
    then show ?thesis
      using send_corp_tax_summary_entered [of webhook_url channel_id tax_data en] True t
      by (cases r) auto
  qed
next
  fix e
  assume a: "(truthy webhook_url \<or> truthy channel_id) \<and> tax_data \<noteq> [] \<and>
          fst (try_body en webhook_url tax_data channel_id) = Inl e"
  obtain r evs where t: "try_body en webhook_url tax_data channel_id = (r, evs)"
    by (cases "try_body en webhook_url tax_data channel_id")
  with a have "r = Inl e" by simp
  then show "send_corp_tax_summary en webhook_url tax_data channel_id =
          (Inr (Some False),
           snd (try_body en webhook_url tax_data channel_id) @
             [Log LogError ''Error sending corp tax summary: ''])"
    using send_corp_tax_summary_entered [of webhook_url channel_id tax_data en] a t by simp
qed

theorem never_raises_witness:
  "send_corp_tax_summary env_bot example_url example_broken PyNone =
     (Inr (Some False), [Log LogError ''Error sending corp tax summary: ''])
   \<and> fst (send_corp_tax_summary env_post_fails example_url example_two PyNone) =
       Inr (Some False)
   \<and> map is_http_post (snd (send_corp_tax_summary env_post_fails example_url example_two PyNone))
       = [True, False]"
proof -
  have f1: "fst (try_body env_bot example_url example_broken PyNone) = Inl TypeError"
    by code_simp
  have s1: "snd (try_body env_bot example_url example_broken PyNone) = []" by code_simp
  have g1: "(truthy example_url \<or> truthy PyNone) \<and> example_broken \<noteq> []"
    by (simp add: example_url_def example_broken_def)
  have f2: "fst (try_body env_post_fails example_url example_two PyNone) = Inl OtherException"
    by code_simp
  have s2: "map is_http_post (snd (try_body env_post_fails example_url example_two PyNone)) =
      [True]" by code_simp
  have g2: "(truthy example_url \<or> truthy PyNone) \<and> example_two \<noteq> []"
    by (simp add: example_url_def example_two_def)
  from never_raises [of env_bot example_url example_broken PyNone] f1 g1
  have r1: "send_corp_tax_summary env_bot example_url example_broken PyNone =
     (Inr (Some False), snd (try_body env_bot example_url example_broken PyNone) @
        [Log LogError ''Error sending corp tax summary: ''])" by blast
  from never_raises [of env_post_fails example_url example_two PyNone] f2 g2
  have r2: "send_corp_tax_summary env_post_fails example_url example_two PyNone =
     (Inr (Some False), snd (try_body env_post_fails example_url example_two PyNone) @
        [Log LogError ''Error sending corp tax summary: ''])" by blast
  show ?thesis using r1 r2 s1 s2 by simp
qed

subsection \<open>The order of the two channels\<close>

lemma dispatch_bot_answered:
  assumes "truthy channel_id" and "fst (bot_block en channel_id rep) \<noteq> Inl ImportError"
  shows "snd (dispatch en webhook_url channel_id rep) = snd (bot_block en channel_id rep)"
proof -
  obtain r evs where b: "bot_block en channel_id rep = (r, evs)"
    by (cases "bot_block en channel_id rep")
  show ?thesis
  proof (cases r)
    case (Inr u)
    then show ?thesis using assms(1) b by (simp add: dispatch_def)
  next
    case (Inl e)
    then have "e \<noteq> ImportError" using assms(2) b by simp
    then show ?thesis using assms(1) b Inl by (cases e) (simp_all add: dispatch_def)
  qed
qed

lemma dispatch_bot_missing:
  assumes "truthy channel_id" and "import_bot en = Some ImportError"
  shows "truthy webhook_url \<Longrightarrow>
           dispatch en webhook_url channel_id rep =
             (fst (webhook_block en webhook_url rep),
              Log LogDebug ''aadiscordbot not available, falling back to webhook'' #
              snd (webhook_block en webhook_url rep))"
    and "\<not> truthy webhook_url \<Longrightarrow>
           dispatch en webhook_url channel_id rep =
             (Inr (Some False),
              [Log LogDebug ''aadiscordbot not available, falling back to webhook'',
               Log LogError ''No webhook URL provided for fallback''])"
  using assms
  by (simp_all add: dispatch_def bot_block_import_error Let_def split: prod.splits)

text \<open>What the function adds to the trace of the dispatch is a line of the log, if anything.\<close>

lemma send_corp_tax_summary_dispatched:
  assumes "build_report en tax_data = Inr (Some rep)" and "truthy channel_id"
  shows "filter is_http_post (snd (send_corp_tax_summary en webhook_url tax_data channel_id)) =
         filter is_http_post (snd (dispatch en webhook_url channel_id rep))"
    and "filter is_bot_send (snd (send_corp_tax_summary en webhook_url tax_data channel_id)) =
         filter is_bot_send (snd (dispatch en webhook_url channel_id rep))"
    and "fst (dispatch en webhook_url channel_id rep) = Inr (Some b) \<Longrightarrow>
         fst (send_corp_tax_summary en webhook_url tax_data channel_id) = Inr (Some b)"
proof -
  have ne: "tax_data \<noteq> []" using assms(1) build_report_Nil by auto
  have t: "try_body en webhook_url tax_data channel_id = dispatch en webhook_url channel_id rep"
    using assms(1) by (simp add: try_body_def)
  obtain r evs where d: "dispatch en webhook_url channel_id rep = (r, evs)"
    by (cases "dispatch en webhook_url channel_id rep")
  have s: "send_corp_tax_summary en webhook_url tax_data channel_id =
      (case r of Inl e \<Rightarrow> (Inr (Some False), evs @ [Log LogError ''Error sending corp tax summary: ''])
       | Inr x \<Rightarrow> (Inr x, evs))"
    using send_corp_tax_summary_entered [of webhook_url channel_id tax_data en] assms(2) ne t d
    by (cases r) simp_all
  show "filter is_http_post (snd (send_corp_tax_summary en webhook_url tax_data channel_id)) =
         filter is_http_post (snd (dispatch en webhook_url channel_id rep))"
    using s d by (cases r) simp_all
  show "filter is_bot_send (snd (send_corp_tax_summary en webhook_url tax_data channel_id)) =
         filter is_bot_send (snd (dispatch en webhook_url channel_id rep))"
    using s d by (cases r) simp_all
  show "fst (dispatch en webhook_url channel_id rep) = Inr (Some b) \<Longrightarrow>
         fst (send_corp_tax_summary en webhook_url tax_data channel_id) = Inr (Some b)"
    using s d by (cases r) simp_all
qed

text \<open>
  C1, as the specification states it, speaks of every call. A call whose list has no
  qualifying record never reaches the dispatch: with \<open>channel_id\<close> given and the bot
  missing it makes no request to the webhook that is given too, and with no webhook it
  returns \<open>True\<close>, not \<open>False\<close>.
\<close>

theorem dispatch_order_counterexample:
  "filter is_http_post
     (snd (send_corp_tax_summary env_no_bot example_url example_idle (PyInt 5))) = []
   \<and> fst (send_corp_tax_summary env_no_bot PyNone example_idle (PyInt 5)) = Inr (Some True)"
  by code_simp

text \<open>
  C1, amended. For every call that reaches the dispatch, that is whose report was
  rendered, with a truthy \<open>channel_id\<close>:
  when the bot is available (the imports succeed and the bot call raises no
  \<open>ImportError\<close>), no request goes to the webhook, given or not, and the bot is called
  once with the report when \<^verbatim>\<open>int(channel_id)\<close> has a value;
  when the imports raise \<open>ImportError\<close> and \<open>webhook_url\<close> is given, exactly one request
  goes to \<open>webhook_url\<close>, with the report, and the bot is not called;
  when the imports raise \<open>ImportError\<close> and no \<open>webhook_url\<close> is given, the function
  returns \<open>False\<close> and nothing is sent.
\<close>

theorem dispatch_order:
  assumes "build_report en tax_data = Inr (Some rep)" and "truthy channel_id"
  shows "(import_bot en = None \<and> send_message en \<noteq> Some ImportError \<longrightarrow>
            filter is_http_post
              (snd (send_corp_tax_summary en webhook_url tax_data channel_id)) = []
            \<and> (\<forall>i. py_int en channel_id = Inr i \<longrightarrow>
                 filter is_bot_send
                   (snd (send_corp_tax_summary en webhook_url tax_data channel_id)) =
                 [BotSend i (make_embed en rep)]))
       \<and> (import_bot en = Some ImportError \<and> truthy webhook_url \<longrightarrow>
            filter is_http_post
              (snd (send_corp_tax_summary en webhook_url tax_data channel_id)) =
            [HttpPost webhook_url
               \<lparr>p_username = ''MiningTaxes Corp Summary'', p_embeds = [make_embed en rep]\<rparr>]
            \<and> filter is_bot_send
                (snd (send_corp_tax_summary en webhook_url tax_data channel_id)) = [])
       \<and> (import_bot en = Some ImportError \<and> \<not> truthy webhook_url \<longrightarrow>
            fst (send_corp_tax_summary en webhook_url tax_data channel_id) = Inr (Some False)
            \<and> outbound (snd (send_corp_tax_summary en webhook_url tax_data channel_id)) = [])"
proof (intro conjI impI allI)
  note sd = send_corp_tax_summary_dispatched [OF assms]
  {
    assume av: "import_bot en = None \<and> send_message en \<noteq> Some ImportError"
    then have "fst (bot_block en channel_id rep) \<noteq> Inl ImportError"
      by (simp add: bot_block_raises)
    from dispatch_bot_answered [OF assms(2) this]
    have d: "snd (dispatch en webhook_url channel_id rep) = snd (bot_block en channel_id rep)" .
    show "filter is_http_post
        (snd (send_corp_tax_summary en webhook_url tax_data channel_id)) = []"
      using sd(1) d by (simp add: bot_block_no_post)
    fix i assume "py_int en channel_id = Inr i"
    then show "filter is_bot_send
        (snd (send_corp_tax_summary en webhook_url tax_data channel_id)) =
        [BotSend i (make_embed en rep)]"
      using sd(2) d av bot_block_imported(1) [of en channel_id i rep] by simp
  }
  {
    assume un: "import_bot en = Some ImportError \<and> truthy webhook_url"
    then have d: "snd (dispatch en webhook_url channel_id rep) =
        Log LogDebug ''aadiscordbot not available, falling back to webhook'' #
        snd (webhook_block en webhook_url rep)"
      using dispatch_bot_missing(1) [OF assms(2), of en webhook_url rep] by simp
    show "filter is_http_post
        (snd (send_corp_tax_summary en webhook_url tax_data channel_id)) =
        [HttpPost webhook_url
           \<lparr>p_username = ''MiningTaxes Corp Summary'', p_embeds = [make_embed en rep]\<rparr>]"
      using sd(1) d un webhook_block_truthy(2) [of webhook_url en rep] by simp
    show "filter is_bot_send
        (snd (send_corp_tax_summary en webhook_url tax_data channel_id)) = []"
      using sd(2) d un webhook_block_truthy(3) [of webhook_url en rep] by simp
  }
  {
    assume no: "import_bot en = Some ImportError \<and> \<not> truthy webhook_url"
    then have d: "dispatch en webhook_url channel_id rep =
             (Inr (Some False),
              [Log LogDebug ''aadiscordbot not available, falling back to webhook'',
               Log LogError ''No webhook URL provided for fallback''])"
      using dispatch_bot_missing(2) [OF assms(2), of en webhook_url rep] by simp
    show "fst (send_corp_tax_summary en webhook_url tax_data channel_id) = Inr (Some False)"
      using sd(3) [where b = False] d by simp
    have "filter is_http_post
        (snd (send_corp_tax_summary en webhook_url tax_data channel_id)) = []"
      and "filter is_bot_send
        (snd (send_corp_tax_summary en webhook_url tax_data channel_id)) = []"
      using sd(1,2) d by simp_all
    then show "outbound (snd (send_corp_tax_summary en webhook_url tax_data channel_id)) = []"
      by (auto simp: outbound_def filter_empty_conv)
  }
qed

theorem dispatch_order_witness:
  "filter is_http_post
     (snd (send_corp_tax_summary env_bot example_url example_two (PyInt 5))) = []
   \<and> filter is_bot_send
       (snd (send_corp_tax_summary env_bot example_url example_two (PyInt 5))) =
     [BotSend 5 (make_embed env_bot report_two)]
   \<and> filter is_http_post
       (snd (send_corp_tax_summary env_no_bot example_url example_two (PyInt 5))) =
     [HttpPost example_url
        \<lparr>p_username = ''MiningTaxes Corp Summary'',
         p_embeds = [make_embed env_no_bot report_two]\<rparr>]
   \<and> fst (send_corp_tax_summary env_no_bot PyNone example_two (PyInt 5)) = Inr (Some False)
   \<and> outbound (snd (send_corp_tax_summary env_no_bot PyNone example_two (PyInt 5))) = []"
proof -
  have h: "build_report env_bot example_two = Inr (Some report_two)" by code_simp
  have h': "build_report env_no_bot example_two = Inr (Some report_two)" by code_simp
  have c: "truthy (PyInt 5)" by simp
  have bot: "import_bot env_bot = None \<and> send_message env_bot \<noteq> Some ImportError"
    by (simp add: env_bot_def)
  have five: "py_int env_bot (PyInt 5) = Inr 5" by (simp add: py_int_def)
  have missing: "import_bot env_no_bot = Some ImportError" by (simp add: env_no_bot_def)
  have url: "truthy example_url" by (simp add: example_url_def)
  have none: "\<not> truthy PyNone" by simp
  note a = dispatch_order [OF h c, of example_url]
  note b = dispatch_order [OF h' c, of example_url]
  note n = dispatch_order [OF h' c, of PyNone]
  from a bot five have "filter is_http_post
     (snd (send_corp_tax_summary env_bot example_url example_two (PyInt 5))) = []"
    and "filter is_bot_send
       (snd (send_corp_tax_summary env_bot example_url example_two (PyInt 5))) =
     [BotSend 5 (make_embed env_bot report_two)]" by blast+
  moreover from b missing url have "filter is_http_post
       (snd (send_corp_tax_summary env_no_bot example_url example_two (PyInt 5))) =
     [HttpPost example_url
        \<lparr>p_username = ''MiningTaxes Corp Summary'',
         p_embeds = [make_embed env_no_bot report_two]\<rparr>]" by blast
  moreover from n missing none
  have "fst (send_corp_tax_summary env_no_bot PyNone example_two (PyInt 5)) = Inr (Some False)"
    and "outbound (snd (send_corp_tax_summary env_no_bot PyNone example_two (PyInt 5))) = []"
    by blast+
  ultimately show ?thesis by (intro conjI)
qed

subsection \<open>Missing keys\<close>






end
